theory Spec2Isabelle
  imports Main "HOL-Library.AList"
begin

section \<open>Values exchanged with the outside world\<close>

text \<open>
  The control server \<^verbatim>\<open>scripts/gui-server.py\<close> keeps its durable state in JSON files and
  answers every request with a JSON object. A parsed JSON document is a value of the
  following type (a Python dict keeps its insertion order, hence the association list;
  numbers are restricted to integers, no claim depends on a float).
\<close>

datatype json =
    JNull
  | JBool bool
  | JNum int
  | JStr string
  | JArr "json list"
  | JObj "(string \<times> json) list"

text \<open>
  An exception is represented by the text \<^verbatim>\<open>str(e)\<close>, the only part of it that the
  program ever looks at (\<^verbatim>\<open>except Exception as e: return {..., 'error': str(e)}\<close>).
\<close>

type_synonym exn = string

definition quoted :: "string \<Rightarrow> string" where
  "quoted s = CHR 0x27 # s @ [CHR 0x27]"

definition key_error :: "string \<Rightarrow> exn" where
  "key_error k = quoted k"

fun py_typename :: "json \<Rightarrow> string" where
  "py_typename JNull = ''NoneType''"
| "py_typename (JBool _) = ''bool''"
| "py_typename (JNum _) = ''int''"
| "py_typename (JStr _) = ''str''"
| "py_typename (JArr _) = ''list''"
| "py_typename (JObj _) = ''dict''"

fun starts_with :: "'a list \<Rightarrow> 'a list \<Rightarrow> bool" where
  "starts_with [] ys = True"
| "starts_with (x # xs) [] = False"
| "starts_with (x # xs) (y # ys) = (x = y \<and> starts_with xs ys)"

fun substring_of :: "'a list \<Rightarrow> 'a list \<Rightarrow> bool" where
  "substring_of xs [] = (xs = [])"
| "substring_of xs (y # ys) = (starts_with xs (y # ys) \<or> substring_of xs ys)"

text \<open>\<^verbatim>\<open>key in data\<close>: key membership for a dict, element membership for a list, substring
  test for a string, \<^verbatim>\<open>TypeError\<close> for anything else.\<close>

fun py_in :: "string \<Rightarrow> json \<Rightarrow> exn + bool" where
  "py_in k (JObj kvs) = Inr (k \<in> set (map fst kvs))"
| "py_in k (JArr xs) = Inr (JStr k \<in> set xs)"
| "py_in k (JStr s) = Inr (substring_of k s)"
| "py_in k v = Inl (''argument of type '' @ quoted (py_typename v) @ '' is not iterable'')"

text \<open>\<^verbatim>\<open>data[key]\<close> with a string key.\<close>

fun py_getitem :: "json \<Rightarrow> string \<Rightarrow> exn + json" where
  "py_getitem (JObj kvs) k = (case map_of kvs k of None \<Rightarrow> Inl (key_error k) | Some v \<Rightarrow> Inr v)"
| "py_getitem (JArr xs) k = Inl ''list indices must be integers or slices, not str''"
| "py_getitem (JStr s) k = Inl ''string indices must be integers''"
| "py_getitem v k = Inl (quoted (py_typename v) @ '' object is not subscriptable'')"

text \<open>\<^verbatim>\<open>data[key] = value\<close> with a string key: an existing key keeps its place, a new one
  is appended.\<close>

fun py_setitem :: "json \<Rightarrow> string \<Rightarrow> json \<Rightarrow> exn + json" where
  "py_setitem (JObj kvs) k v = Inr (JObj (AList.update k v kvs))"
| "py_setitem (JArr xs) k v = Inl ''list indices must be integers or slices, not str''"
| "py_setitem d k v = Inl (quoted (py_typename d) @ '' object does not support item assignment'')"

fun json_of_opt :: "string option \<Rightarrow> json" where
  "json_of_opt None = JNull"
| "json_of_opt (Some s) = JStr s"

text \<open>Decimal rendering of a process id inside an f-string.\<close>

definition digit_char :: "nat \<Rightarrow> char" where
  "digit_char d = ''0123456789'' ! d"

fun show_nat :: "nat \<Rightarrow> string" where
  "show_nat n = (if n < 10 then [digit_char n] else show_nat (n div 10) @ [digit_char (n mod 10)])"

declare show_nat.simps [simp del]

text \<open>\<^verbatim>\<open>str.strip()\<close> on the bytes of a log file (ASCII white space).\<close>

definition is_space :: "char \<Rightarrow> bool" where
  "is_space c = (c \<in> set [CHR '' '', CHR 0x09, CHR 0x0A, CHR 0x0B, CHR 0x0C, CHR 0x0D])"

definition strip :: "string \<Rightarrow> string" where
  "strip s = rev (dropWhile is_space (rev (dropWhile is_space s)))"

section \<open>The machine the server runs on\<close>

text \<open>
  The content of \<^verbatim>\<open>VERSION_FILE\<close> is represented by what
  \<^verbatim>\<open>json.loads(VERSION_FILE.read_text())\<close> makes of it: the file is absent, or reading and
  parsing it raises, or it yields a JSON value. Writing \<^verbatim>\<open>json.dumps(v, indent=2)\<close> stores a
  text that parses back to \<open>v\<close>, when the write does not raise.
\<close>

datatype vfile = Absent | Unparsable | Parsed json

text \<open>A node of the extracted archive: a regular file (content, permission bits) or a
  directory listing in \<^verbatim>\<open>iterdir()\<close> order.\<close>

datatype node = File string nat | Dir "(string \<times> node) list"

fun is_dir :: "node \<Rightarrow> bool" where
  "is_dir (Dir _) = True"
| "is_dir (File _ _) = False"

text \<open>
  The requests of the control surface that the model serves: \<^verbatim>\<open>GET /api/status\<close>,
  \<^verbatim>\<open>GET /api/config\<close>, \<^verbatim>\<open>GET /api/update-info\<close>, \<^verbatim>\<open>POST /api/start\<close>, \<^verbatim>\<open>POST /api/stop\<close>,
  \<^verbatim>\<open>POST /api/restart\<close> and \<^verbatim>\<open>POST /api/update\<close>. The auxiliary endpoints are outside the
  model.
\<close>

datatype request =
    GET_status
  | GET_config
  | GET_update_info
  | POST_start
  | POST_stop
  | POST_restart
  | POST_update

text \<open>Effects are logged in the order in which the program performs them; \<open>Answered r\<close>
  is the \<^verbatim>\<open>send_json\<close> that ends the handling of request \<open>r\<close>.\<close>

datatype event =
    Kill nat
  | Sleep nat
  | Launch nat
  | Download
  | Extract
  | CopyScript string
  | MkdirGui
  | CopyGui string
  | WriteVersion json
  | Answered request

datatype target = Scripts | Gui

text \<open>
  \<open>procs\<close> lists the pids of the live processes whose name matches one of
  \<^verbatim>\<open>PROCESS_NAMES\<close>, in scan order; \<open>bin_dir\<close> is \<^verbatim>\<open>~/bin\<close> and \<open>gui_dir\<close> is
  \<^verbatim>\<open>GUI_PATH.parent\<close> (\<open>None\<close> when the directory does not exist), each mapping a file name
  to content and permission bits. \<open>create_raises\<close> is what the creation of a new file
  in \<^verbatim>\<open>~/.cli-proxy-api\<close> raises, if it does: \<^verbatim>\<open>FileNotFoundError\<close> when that directory is
  missing, \<^verbatim>\<open>PermissionError\<close> when it cannot be written.
\<close>

record world =
  home :: string
  procs :: "nat list"
  config_exists :: bool
  version_file :: vfile
  create_raises :: "exn option"
  bin_dir :: "string \<rightharpoonup> string \<times> nat"
  gui_dir :: "(string \<rightharpoonup> string \<times> nat) option"
  events :: "event list"

text \<open>The commit metadata that the GitHub API returns for \<^verbatim>\<open>commits/main\<close>.\<close>

record commit =
  sha :: string
  author_date :: string
  commit_message :: string

text \<open>
  What the outside world answers during one operation: the outcome of the HTTP request for
  the commit, the clock, whether \<^verbatim>\<open>os.kill\<close> raises and whether the signalled process is gone
  at the next scan, the outcome of \<^verbatim>\<open>subprocess.Popen\<close> and of the liveness check half a
  second later, what the log files then hold, the outcomes of download, extraction and
  of each \<^verbatim>\<open>shutil.copy2\<close>, the name of the temporary directory and the telemetry that psutil
  gives for a found process, and what reading \<^verbatim>\<open>config.yaml\<close> yields. These, and the
  creation of the version file, are the failures that the model follows; rewriting a
  version file that exists, creating the log directory and \<^verbatim>\<open>chmod\<close> on a file just
  copied are taken to succeed.
\<close>

record env =
  fetched :: "exn \<times> string option \<times> string option + commit"
  now :: string
  kill_raises :: "exn option"
  term_exits :: bool
  launch_raises :: "exn option"
  child_pid :: nat
  child_alive :: bool
  child_logs :: "(string \<times> string) option"
  download_raises :: "exn option"
  extracted :: "exn + (string \<times> node) list"
  copy_raises :: "target \<Rightarrow> string \<Rightarrow> exn option"
  tmp :: string
  telemetry :: "(string \<times> string) option"
  config_read :: "exn + string"

definition log_event :: "event list \<Rightarrow> world \<Rightarrow> world" where
  "log_event es w = w\<lparr>events := events w @ es\<rparr>"

definition sleep :: "nat \<Rightarrow> world \<Rightarrow> world" where
  "sleep ms w = log_event [Sleep ms] w"

definition SCRIPT_VERSION :: string where
  "SCRIPT_VERSION = ''1.1.0''"

definition API_PORT :: nat where
  "API_PORT = 8317"

definition GITHUB_REPO :: string where
  "GITHUB_REPO = ''imrosyd/cliproxyapi-plus''"

definition BINARY :: "world \<Rightarrow> string" where
  "BINARY w = home w @ ''/bin/cliproxyapi-plus''"

definition CONFIG_FILE :: "world \<Rightarrow> string" where
  "CONFIG_FILE w = home w @ ''/.cli-proxy-api/config.yaml''"

definition binary_exists :: "world \<Rightarrow> bool" where
  "binary_exists w = (bin_dir w ''cliproxyapi-plus'' \<noteq> None)"

section \<open>ProcessLocator and ProcessSupervisor\<close>

text \<open>\<^verbatim>\<open>get_server_process\<close>: the first matching process of the scan, if any.\<close>

definition get_server_process :: "world \<Rightarrow> nat option" where
  "get_server_process w = (case procs w of [] \<Rightarrow> None | p # _ \<Rightarrow> Some p)"

record status =
  running :: bool
  s_pid :: "nat option"
  memory :: "string option"
  startTime :: "string option"
  port :: nat
  endpoint :: string

definition get_server_status :: "env \<Rightarrow> world \<Rightarrow> status" where
  "get_server_status e w =
     (case get_server_process w of
        Some p \<Rightarrow>
          \<lparr>running = True, s_pid = Some p,
           memory = map_option fst (telemetry e), startTime = map_option snd (telemetry e),
           port = API_PORT, endpoint = ''http://localhost:'' @ show_nat API_PORT @ ''/v1''\<rparr>
      | None \<Rightarrow>
          \<lparr>running = False, s_pid = None, memory = None, startTime = None,
           port = API_PORT, endpoint = ''http://localhost:'' @ show_nat API_PORT @ ''/v1''\<rparr>)"

text \<open>
  The JSON answers of the operations: \<^verbatim>\<open>{'success': False, 'error': msg}\<close>, the answer of a
  successful start with the child's pid, of a successful stop, and of a successful install
  with \<^verbatim>\<open>newCommit\<close> and \<^verbatim>\<open>commitMessage\<close>.
\<close>

datatype result =
    Fail string
  | Started nat
  | Stopped
  | Installed "string option" string

definition exit_message :: "env \<Rightarrow> string" where
  "exit_message e =
     ''Server exited immediately'' @
     (case child_logs e of
        None \<Rightarrow> ''''
      | Some (stdout_content, stderr_content) \<Rightarrow>
          (let combined = strip (strip stdout_content @ strip stderr_content)
           in if combined \<noteq> '''' then '': '' @ combined else ''''))"

text \<open>
  \<^verbatim>\<open>start_api_server\<close>. A child that is alive after the half second is a process named
  \<^verbatim>\<open>cliproxyapi-plus\<close>, so later scans find it.
\<close>

definition start_api_server :: "env \<Rightarrow> world \<Rightarrow> result \<times> world" where
  "start_api_server e w =
     (case get_server_process w of
        Some p \<Rightarrow> (Fail (''Server already running (PID: '' @ show_nat p @ '')''), w)
      | None \<Rightarrow>
          if \<not> binary_exists w then (Fail (''Binary not found: '' @ BINARY w), w)
          else if \<not> config_exists w then (Fail (''Config not found: '' @ CONFIG_FILE w), w)
          else (case launch_raises e of
                  Some msg \<Rightarrow> (Fail msg, w)
                | None \<Rightarrow>
                    (let w1 = log_event [Launch (child_pid e), Sleep 500] w
                     in if child_alive e
                        then (Started (child_pid e), w1\<lparr>procs := procs w1 @ [child_pid e]\<rparr>)
                        else (Fail (exit_message e), w1))))"

text \<open>\<^verbatim>\<open>stop_api_server\<close>: one \<^verbatim>\<open>SIGTERM\<close> to the found pid, no check that it exited.\<close>

definition stop_api_server :: "env \<Rightarrow> world \<Rightarrow> result \<times> world" where
  "stop_api_server e w =
     (case get_server_process w of
        None \<Rightarrow> (Fail ''Server not running'', w)
      | Some p \<Rightarrow>
          (case kill_raises e of
             Some msg \<Rightarrow> (Fail msg, w)
           | None \<Rightarrow>
               (let w1 = log_event [Kill p, Sleep 300] w
                in (Stopped, if term_exits e then w1\<lparr>procs := remove1 p (procs w1)\<rparr> else w1))))"

definition restart_api_server :: "env \<Rightarrow> world \<Rightarrow> result \<times> world" where
  "restart_api_server e w =
     (let (_, w1) = stop_api_server e w;
          w2 = sleep 500 w1
      in start_api_server e w2)"

section \<open>VersionStore\<close>

definition default_version :: json where
  "default_version =
     JObj [(''scripts'', JStr SCRIPT_VERSION), (''commitSha'', JStr ''unknown''),
           (''commitDate'', JNull), (''lastCheck'', JNull)]"

definition write_version :: "json \<Rightarrow> world \<Rightarrow> world" where
  "write_version v w = log_event [WriteVersion v] (w\<lparr>version_file := Parsed v\<rparr>)"

text \<open>\<^verbatim>\<open>VERSION_FILE.write_text(json.dumps(v, indent=2))\<close>: when the file does not exist
  yet, the write creates it and raises what the creation raises; the result is the
  exception, if any.\<close>

definition write_version_file :: "json \<Rightarrow> world \<Rightarrow> exn option \<times> world" where
  "write_version_file v w =
     (case version_file w of
        Absent \<Rightarrow>
          (case create_raises w of
             Some x \<Rightarrow> (Some x, w)
           | None \<Rightarrow> (None, write_version v w))
      | _ \<Rightarrow> (None, write_version v w))"

text \<open>Lines 536 to 544: the default record is written and returned. The write stands
  outside the \<^verbatim>\<open>try\<close>, so its exception leaves \<^verbatim>\<open>get_local_version\<close> (\<open>Inl\<close>).\<close>

definition create_default_version :: "world \<Rightarrow> (exn + json) \<times> world" where
  "create_default_version w =
     (case write_version_file default_version w of
        (Some x, w1) \<Rightarrow> (Inl x, w1)
      | (None, w1) \<Rightarrow> (Inr default_version, w1))"

text \<open>\<^verbatim>\<open>get_local_version\<close>: every exception inside the \<^verbatim>\<open>try\<close> falls through to the creation
  of the default file.\<close>

definition get_local_version :: "world \<Rightarrow> (exn + json) \<times> world" where
  "get_local_version w =
     (case version_file w of
        Absent \<Rightarrow> create_default_version w
      | Unparsable \<Rightarrow> create_default_version w
      | Parsed data \<Rightarrow>
          (case py_in ''commitSha'' data of
             Inl _ \<Rightarrow> create_default_version w
           | Inr True \<Rightarrow> (Inr data, w)
           | Inr False \<Rightarrow>
               (case py_setitem data ''commitSha'' (JStr ''unknown'') of
                  Inl _ \<Rightarrow> create_default_version w
                | Inr data' \<Rightarrow> (Inr data', w))))"

section \<open>UpdateInstaller\<close>

record update_info =
  currentVersion :: json
  currentCommit :: json
  latestCommit :: "string option"
  latestCommitDate :: "string option"
  latestCommitMessage :: string
  hasUpdate :: bool
  downloadUrl :: string
  repoUrl :: string
  error :: "string option"

definition first_line :: "string \<Rightarrow> string" where
  "first_line s = takeWhile (\<lambda>c. c \<noteq> CHR 0x0A) s"

text \<open>
  \<^verbatim>\<open>get_update_info\<close>. The call of \<^verbatim>\<open>get_local_version\<close> and the two look-ups
  \<^verbatim>\<open>local['scripts']\<close> and \<^verbatim>\<open>local['commitSha']\<close> stand before the \<^verbatim>\<open>try\<close>, so their
  exception leaves the function (\<open>Inl\<close>). Inside the
  \<^verbatim>\<open>try\<close>, \<open>fetched e = Inr c\<close> means that the request, the parse and the three look-ups
  of the response succeeded; \<open>Inl (x, s, d)\<close> means that one of them raised \<open>x\<close> after
  \<^verbatim>\<open>latestCommit\<close> and \<^verbatim>\<open>latestCommitDate\<close> had received \<open>s\<close> and \<open>d\<close>.
\<close>

definition get_update_info :: "env \<Rightarrow> world \<Rightarrow> (exn + update_info) \<times> world" where
  "get_update_info e w =
     (case get_local_version w of
        (Inl x, w1) \<Rightarrow> (Inl x, w1)
      | (Inr local, w1) \<Rightarrow>
        (case py_getitem local ''scripts'' of
           Inl x \<Rightarrow> (Inl x, w1)
         | Inr current_version \<Rightarrow>
             (case py_getitem local ''commitSha'' of
                Inl x \<Rightarrow> (Inl x, w1)
              | Inr current_commit \<Rightarrow>
                  (let result =
                         \<lparr>currentVersion = current_version, currentCommit = current_commit,
                          latestCommit = None, latestCommitDate = None,
                          latestCommitMessage = '''', hasUpdate = False,
                          downloadUrl = ''https://github.com/'' @ GITHUB_REPO
                                          @ ''/archive/refs/heads/main.zip'',
                          repoUrl = ''https://github.com/'' @ GITHUB_REPO,
                          error = None\<rparr>
                   in case fetched e of
                        Inl (x, s, d) \<Rightarrow>
                          (Inr (result\<lparr>latestCommit := s, latestCommitDate := d,
                                       error := Some x\<rparr>), w1)
                      | Inr c \<Rightarrow>
                          (let result1 =
                                 result\<lparr>latestCommit := Some (take 7 (sha c)),
                                        latestCommitDate := Some (author_date c),
                                        latestCommitMessage := first_line (commit_message c)\<rparr>;
                               result2 =
                                 result1\<lparr>hasUpdate :=
                                   (if current_commit = JStr ''unknown'' then True
                                    else current_commit \<noteq> JStr (take 7 (sha c)))\<rparr>
                           in case py_setitem local ''lastCheck'' (JStr (now e)) of
                                Inl x \<Rightarrow> (Inr (result2\<lparr>error := Some x\<rparr>), w1)
                              | Inr local' \<Rightarrow>
                                  (case write_version_file local' w1 of
                                     (Some x, w2) \<Rightarrow> (Inr (result2\<lparr>error := Some x\<rparr>), w2)
                                   | (None, w2) \<Rightarrow> (Inr result2, w2)))))))"

definition mode_755 :: nat where
  "mode_755 = 7 * 64 + 5 * 8 + 5"

definition not_a_directory :: "string \<Rightarrow> exn" where
  "not_a_directory path = ''[Errno 20] Not a directory: '' @ quoted path"

text \<open>The loop over \<^verbatim>\<open>scripts_source.iterdir()\<close>: \<^verbatim>\<open>shutil.copy2\<close> then \<^verbatim>\<open>chmod(0o755)\<close> for
  every regular file; the first exception ends the loop with the earlier copies in place.\<close>

fun copy_scripts :: "env \<Rightarrow> (string \<times> node) list \<Rightarrow> world \<Rightarrow> exn option \<times> world" where
  "copy_scripts e [] w = (None, w)"
| "copy_scripts e ((name, Dir _) # items) w = copy_scripts e items w"
| "copy_scripts e ((name, File content _) # items) w =
     (case copy_raises e Scripts name of
        Some x \<Rightarrow> (Some x, w)
      | None \<Rightarrow>
          copy_scripts e items
            (log_event [CopyScript name] (w\<lparr>bin_dir := (bin_dir w)(name \<mapsto> (content, mode_755))\<rparr>)))"

text \<open>\<^verbatim>\<open>gui_dest.mkdir(parents=True, exist_ok=True)\<close>.\<close>

definition mkdir_gui :: "world \<Rightarrow> world" where
  "mkdir_gui w =
     (case gui_dir w of
        None \<Rightarrow> log_event [MkdirGui] (w\<lparr>gui_dir := Some Map.empty\<rparr>)
      | Some _ \<Rightarrow> w)"

text \<open>The loop over \<^verbatim>\<open>gui_source.iterdir()\<close>: \<^verbatim>\<open>shutil.copy2\<close> keeps the permission bits of
  the source.\<close>

fun copy_gui :: "env \<Rightarrow> (string \<times> node) list \<Rightarrow> world \<Rightarrow> exn option \<times> world" where
  "copy_gui e [] w = (None, w)"
| "copy_gui e ((name, Dir _) # items) w = copy_gui e items w"
| "copy_gui e ((name, File content mode) # items) w =
     (case copy_raises e Gui name of
        Some x \<Rightarrow> (Some x, w)
      | None \<Rightarrow>
          (case gui_dir w of
             None \<Rightarrow> (Some ''[Errno 2] No such file or directory'', w)
           | Some d \<Rightarrow>
               copy_gui e items
                 (log_event [CopyGui name] (w\<lparr>gui_dir := Some (d(name \<mapsto> (content, mode)))\<rparr>))))"

fun children :: "node \<Rightarrow> (string \<times> node) list" where
  "children (Dir items) = items"
| "children (File _ _) = []"

text \<open>Lines 630 to 637: the \<^verbatim>\<open>scripts\<close> entry of the extracted folder.\<close>

definition install_scripts :: "env \<Rightarrow> string \<Rightarrow> node \<Rightarrow> world \<Rightarrow> exn option \<times> world" where
  "install_scripts e folder_name folder w =
     (case map_of (children folder) ''scripts'' of
        None \<Rightarrow> (None, w)
      | Some (File _ _) \<Rightarrow>
          (Some (not_a_directory (tmp e @ ''/'' @ folder_name @ ''/scripts'')), w)
      | Some (Dir items) \<Rightarrow> copy_scripts e items w)"

text \<open>Lines 639 to 646: the \<^verbatim>\<open>gui\<close> entry of the extracted folder.\<close>

definition install_gui :: "env \<Rightarrow> string \<Rightarrow> node \<Rightarrow> world \<Rightarrow> exn option \<times> world" where
  "install_gui e folder_name folder w =
     (case map_of (children folder) ''gui'' of
        None \<Rightarrow> (None, w)
      | Some (File _ _) \<Rightarrow>
          (Some (not_a_directory (tmp e @ ''/'' @ folder_name @ ''/gui'')), mkdir_gui w)
      | Some (Dir items) \<Rightarrow> copy_gui e items (mkdir_gui w))"

text \<open>
  Lines 611 to 646, the body of the \<^verbatim>\<open>with tempfile.TemporaryDirectory()\<close> block up to the
  copies: download, extraction, choice of the first extracted directory, the two copy
  loops. The result is the error text of the step that ended the block, if one did.
\<close>

definition install_files :: "env \<Rightarrow> world \<Rightarrow> string option \<times> world" where
  "install_files e w =
     (case download_raises e of
        Some x \<Rightarrow> (Some x, w)
      | None \<Rightarrow>
          (let w1 = log_event [Download] w
           in case extracted e of
                Inl x \<Rightarrow> (Some x, w1)
              | Inr entries \<Rightarrow>
                  (let w2 = log_event [Extract] w1
                   in case filter (\<lambda>d. is_dir (snd d)) entries of
                        [] \<Rightarrow> (Some ''No folder found in archive'', w2)
                      | (folder_name, extracted_folder) # _ \<Rightarrow>
                          (case install_scripts e folder_name extracted_folder w2 of
                             (Some x, w3) \<Rightarrow> (Some x, w3)
                           | (None, w3) \<Rightarrow> install_gui e folder_name extracted_folder w3))))"

text \<open>Lines 648 to 652: read the version record again, set the two fields, write it.\<close>

definition persist_version :: "update_info \<Rightarrow> world \<Rightarrow> exn option \<times> world" where
  "persist_version info w =
     (case get_local_version w of
        (Inl x, w1) \<Rightarrow> (Some x, w1)
      | (Inr local, w1) \<Rightarrow>
        (case py_setitem local ''commitSha'' (json_of_opt (latestCommit info)) of
           Inl x \<Rightarrow> (Some x, w1)
         | Inr local1 \<Rightarrow>
             (case py_setitem local1 ''commitDate'' (json_of_opt (latestCommitDate info)) of
                Inl x \<Rightarrow> (Some x, w1)
              | Inr local2 \<Rightarrow> write_version_file local2 w1)))"

text \<open>Lines 603 to 608: remember whether the server runs, stop it and wait a second.\<close>

definition stop_for_install :: "env \<Rightarrow> world \<Rightarrow> bool \<times> world" where
  "stop_for_install e w =
     (let was_running = (get_server_process w \<noteq> None)
      in (was_running, if was_running then sleep 1000 (snd (stop_api_server e w)) else w))"

text \<open>Lines 603 to 652: stop, download, extract, copy, persist. The result is the error
  text of the step that failed, if one did, and whether the server ran at the beginning.\<close>

definition install_and_persist ::
  "env \<Rightarrow> update_info \<Rightarrow> world \<Rightarrow> string option \<times> bool \<times> world" where
  "install_and_persist e info w =
     (let (was_running, w1) = stop_for_install e w
      in case install_files e w1 of
           (Some x, w2) \<Rightarrow> (Some x, was_running, w2)
         | (None, w2) \<Rightarrow>
             (case persist_version info w2 of
                (r, w3) \<Rightarrow> (r, was_running, w3)))"

text \<open>Lines 603 to 667, what \<^verbatim>\<open>install_update\<close> does once the check has given \<open>info\<close>
  without an error: a failure is returned as it is, with no further step; after a success
  the server is started again if it ran before, and the answer of that start is dropped.\<close>

definition install_after_check :: "env \<Rightarrow> update_info \<Rightarrow> world \<Rightarrow> result \<times> world" where
  "install_after_check e info w =
     (case install_and_persist e info w of
        (Some x, _, w3) \<Rightarrow> (Fail x, w3)
      | (None, was_running, w3) \<Rightarrow>
          (Installed (latestCommit info) (latestCommitMessage info),
           if was_running then snd (start_api_server e w3) else w3))"

text \<open>\<^verbatim>\<open>install_update\<close>. The test \<^verbatim>\<open>if update_info.get('error')\<close> is Python truthiness: an
  empty error text does not stop the install.\<close>

definition install_update :: "env \<Rightarrow> world \<Rightarrow> result \<times> world" where
  "install_update e w =
     (case get_update_info e w of
        (Inl x, w1) \<Rightarrow> (Fail x, w1)
      | (Inr info, w1) \<Rightarrow>
          (case error info of
             None \<Rightarrow> install_after_check e info w1
           | Some x \<Rightarrow>
               if x \<noteq> '''' then (Fail (''Failed to get update info: '' @ x), w1)
               else install_after_check e info w1))"

section \<open>ControlAPI\<close>

text \<open>\<^verbatim>\<open>get_config_content\<close>: the answer carries the content of \<^verbatim>\<open>config.yaml\<close> or an
  error text.\<close>

datatype config_answer = ConfigContent string | ConfigError string

definition get_config_content :: "env \<Rightarrow> world \<Rightarrow> config_answer" where
  "get_config_content e w =
     (if \<not> config_exists w then ConfigError (''Config file not found: '' @ CONFIG_FILE w)
      else (case config_read e of
              Inl x \<Rightarrow> ConfigError x
            | Inr content \<Rightarrow> ConfigContent content))"

text \<open>The body that \<^verbatim>\<open>send_json\<close> writes for each of the served requests.\<close>

datatype body =
    StatusBody status
  | ConfigBody config_answer
  | UpdateInfoBody update_info
  | ResultBody result

text \<open>
  \<^verbatim>\<open>do_GET\<close> and \<^verbatim>\<open>do_POST\<close> on the served requests: the handler calls the operation and
  then \<^verbatim>\<open>send_json\<close> with its result. An exception that leaves the operation
  (\<^verbatim>\<open>get_update_info\<close> has no handler around its first lines) leaves the handler too: no
  answer is sent.
\<close>

definition send_json :: "request \<Rightarrow> body \<Rightarrow> world \<Rightarrow> (exn + body) \<times> world" where
  "send_json r b w = (Inr b, log_event [Answered r] w)"

fun handle :: "env \<Rightarrow> request \<Rightarrow> world \<Rightarrow> (exn + body) \<times> world" where
  "handle e GET_status w = send_json GET_status (StatusBody (get_server_status e w)) w"
| "handle e GET_config w = send_json GET_config (ConfigBody (get_config_content e w)) w"
| "handle e GET_update_info w =
     (case get_update_info e w of
        (Inl x, w1) \<Rightarrow> (Inl x, w1)
      | (Inr info, w1) \<Rightarrow> send_json GET_update_info (UpdateInfoBody info) w1)"
| "handle e POST_start w =
     (case start_api_server e w of (r, w1) \<Rightarrow> send_json POST_start (ResultBody r) w1)"
| "handle e POST_stop w =
     (case stop_api_server e w of (r, w1) \<Rightarrow> send_json POST_stop (ResultBody r) w1)"
| "handle e POST_restart w =
     (case restart_api_server e w of (r, w1) \<Rightarrow> send_json POST_restart (ResultBody r) w1)"
| "handle e POST_update w =
     (case install_update e w of (r, w1) \<Rightarrow> send_json POST_update (ResultBody r) w1)"

text \<open>
  \<^verbatim>\<open>main\<close> creates one \<^verbatim>\<open>HTTPServer\<close> (line 780), a server without a thread or process per
  request, and runs its \<^verbatim>\<open>serve_forever\<close> in one thread (line 808): the loop accepts a
  connection, runs the handler to its end, and only then accepts the next one.
  Connections that arrive in the meantime wait in the listen queue. The argument is
  the list of requests in the order of their arrival, each with what the outside world
  answers while it is handled; the result is the list of what was sent back.
\<close>

fun serve_forever :: "(env \<times> request) list \<Rightarrow> world \<Rightarrow> (exn + body) list \<times> world" where
  "serve_forever [] w = ([], w)"
| "serve_forever ((e, r) # queue) w =
     (case handle e r w of
        (answer, w1) \<Rightarrow>
          (case serve_forever queue w1 of
             (answers, w2) \<Rightarrow> (answer # answers, w2)))"

section \<open>Notions used in the statements\<close>

text \<open>A field of the version record as a caller reads it, \<^verbatim>\<open>get_local_version()[k]\<close>, and
  the installed commit, \<^verbatim>\<open>get_local_version()['commitSha']\<close>.\<close>

definition stored_field :: "world \<Rightarrow> string \<Rightarrow> exn + json" where
  "stored_field w k =
     (case fst (get_local_version w) of
        Inl x \<Rightarrow> Inl x
      | Inr l \<Rightarrow> py_getitem l k)"

definition stored_commit :: "world \<Rightarrow> exn + json" where
  "stored_commit w = stored_field w ''commitSha''"

text \<open>A git object name is written in lower-case hexadecimal digits.\<close>

definition is_hex_sha :: "string \<Rightarrow> bool" where
  "is_hex_sha s = list_all (\<lambda>c. c \<in> set ''0123456789abcdef'') s"

text \<open>Reading a decimal numeral back, to say which pid a message shows.\<close>

definition digit_val :: "char \<Rightarrow> nat" where
  "digit_val c = of_char c - 48"

definition read_nat :: "string \<Rightarrow> nat" where
  "read_nat s = foldl (\<lambda>a c. 10 * a + digit_val c) 0 s"

subsection \<open>Sample inputs\<close>

definition sample_commit :: commit where
  "sample_commit =
     \<lparr>sha = ''9f3c2ab7d1e04455aa10'', author_date = ''2025-01-02T03:04:05Z'',
      commit_message = ''Fix start script''\<rparr>"

text \<open>An archive with a \<^verbatim>\<open>scripts\<close> folder and no \<^verbatim>\<open>gui\<close> folder.\<close>

definition sample_archive :: "(string \<times> node) list" where
  "sample_archive =
     [(''update.zip'', File ''PK'' 420),
      (''cliproxyapi-plus-main'',
         Dir [(''README.md'', File ''readme'' 420),
              (''scripts'', Dir [(''lib'', Dir []), (''start.sh'', File ''#!/bin/sh'' 420)])])]"

text \<open>An environment in which every step succeeds.\<close>

definition quiet_env :: env where
  "quiet_env =
     \<lparr>fetched = Inr sample_commit, now = ''2025-01-03T10:00:00'',
      kill_raises = None, term_exits = True, launch_raises = None,
      child_pid = 5151, child_alive = True, child_logs = None,
      download_raises = None, extracted = Inr sample_archive,
      copy_raises = (\<lambda>_ _. None), tmp = ''/tmp/tmpk3s9'', telemetry = None,
      config_read = Inr ''port: 8317''\<rparr>"

definition sample_version :: "string \<Rightarrow> json" where
  "sample_version c =
     JObj [(''scripts'', JStr ''1.1.0''), (''commitSha'', JStr c),
           (''commitDate'', JStr ''2024-12-24T08:00:00Z''), (''lastCheck'', JNull)]"

text \<open>A machine on which the server runs as process 4242 and commit \<^verbatim>\<open>abc1234\<close> is
  installed; the same machine with no server process; a machine with another version file.\<close>

definition sample_world :: world where
  "sample_world =
     \<lparr>home = ''/home/u'', procs = [4242], config_exists = True,
      version_file = Parsed (sample_version ''abc1234''),
      create_raises = None,
      bin_dir = [''cliproxyapi-plus'' \<mapsto> (''ELF'', 493)],
      gui_dir = Some [''index.html'' \<mapsto> (''<html>'', 420)],
      events = []\<rparr>"

definition idle_world :: world where
  "idle_world = sample_world\<lparr>procs := []\<rparr>"

definition with_version :: "vfile \<Rightarrow> world \<Rightarrow> world" where
  "with_version v w = w\<lparr>version_file := v\<rparr>"

text \<open>A machine on which the program has never run: no server, and no directory
  \<^verbatim>\<open>~/.cli-proxy-api\<close>, hence no configuration file and no version file.\<close>

definition no_such_file :: "string \<Rightarrow> exn" where
  "no_such_file path = ''[Errno 2] No such file or directory: '' @ quoted path"

definition fresh_world :: world where
  "fresh_world =
     sample_world\<lparr>procs := [], config_exists := False, version_file := Absent,
       create_raises := Some (no_such_file ''/home/u/.cli-proxy-api/version.json'')\<rparr>"

text \<open>The answer of the update check on the sample commit.\<close>

definition sample_info :: "string \<Rightarrow> bool \<Rightarrow> update_info" where
  "sample_info current has_update =
     \<lparr>currentVersion = JStr ''1.1.0'', currentCommit = JStr current,
      latestCommit = Some ''9f3c2ab'', latestCommitDate = Some ''2025-01-02T03:04:05Z'',
      latestCommitMessage = ''Fix start script'', hasUpdate = has_update,
      downloadUrl = ''https://github.com/imrosyd/cliproxyapi-plus/archive/refs/heads/main.zip'',
      repoUrl = ''https://github.com/imrosyd/cliproxyapi-plus'', error = None\<rparr>"

text \<open>Environments in which the download, the extraction, or the copy of \<^verbatim>\<open>start.sh\<close>
  raises, each time because the disk is full.\<close>

definition no_space :: exn where
  "no_space = ''[Errno 28] No space left on device''"

definition download_fails :: env where
  "download_fails = quiet_env\<lparr>download_raises := Some no_space\<rparr>"

definition extract_fails :: env where
  "extract_fails = quiet_env\<lparr>extracted := Inl no_space\<rparr>"

definition copy_fails :: env where
  "copy_fails =
     quiet_env\<lparr>copy_raises :=
       (\<lambda>t name. if t = Scripts \<and> name = ''start.sh'' then Some no_space else None)\<rparr>"

subsection \<open>Reading the event log\<close>

fun is_copy :: "event \<Rightarrow> bool" where
  "is_copy (CopyScript _) = True"
| "is_copy (CopyGui _) = True"
| "is_copy _ = False"

fun is_write :: "event \<Rightarrow> bool" where
  "is_write (WriteVersion _) = True"
| "is_write _ = False"

fun is_launch :: "event \<Rightarrow> bool" where
  "is_launch (Launch _) = True"
| "is_launch _ = False"

fun is_gui_event :: "event \<Rightarrow> bool" where
  "is_gui_event MkdirGui = True"
| "is_gui_event (CopyGui _) = True"
| "is_gui_event _ = False"

text \<open>\<open>emits P w w'\<close>: the log of \<open>w'\<close> is the log of \<open>w\<close> followed by events that all
  satisfy \<open>P\<close>.\<close>

definition emits :: "(event \<Rightarrow> bool) \<Rightarrow> world \<Rightarrow> world \<Rightarrow> bool" where
  "emits P w w' =
     (take (length (events w)) (events w') = events w
      \<and> list_all P (drop (length (events w)) (events w')))"

fun is_stop_event :: "event \<Rightarrow> bool" where
  "is_stop_event (Kill _) = True"
| "is_stop_event (Sleep _) = True"
| "is_stop_event _ = False"

fun is_start_event :: "event \<Rightarrow> bool" where
  "is_start_event (Launch _) = True"
| "is_start_event (Sleep _) = True"
| "is_start_event _ = False"

fun is_file_event :: "event \<Rightarrow> bool" where
  "is_file_event Download = True"
| "is_file_event Extract = True"
| "is_file_event (CopyScript _) = True"
| "is_file_event MkdirGui = True"
| "is_file_event (CopyGui _) = True"
| "is_file_event _ = False"

text \<open>The regular files of a directory listing: name, content, permission bits.\<close>

fun files_of :: "(string \<times> node) list \<Rightarrow> (string \<times> string \<times> nat) list" where
  "files_of [] = []"
| "files_of ((name, Dir _) # items) = files_of items"
| "files_of ((name, File content mode) # items) = (name, content, mode) # files_of items"

text \<open>\<open>writes_commit x ev\<close>: if \<open>ev\<close> is a write of the version file, the record written
  has \<^verbatim>\<open>commitSha\<close> equal to \<open>x\<close>.\<close>

fun writes_commit :: "exn + json \<Rightarrow> event \<Rightarrow> bool" where
  "writes_commit x (WriteVersion v) = (py_getitem v ''commitSha'' = x)"
| "writes_commit x _ = True"

subsection \<open>The machine between the steps of an install\<close>

text \<open>The machine after the check, after the stop of the server, after the download,
  extraction and copies, and after the write of the version file.\<close>

definition after_check :: "env \<Rightarrow> world \<Rightarrow> world" where
  "after_check e w = snd (get_update_info e w)"

definition after_stop :: "env \<Rightarrow> world \<Rightarrow> world" where
  "after_stop e w = snd (stop_for_install e (after_check e w))"

definition after_files :: "env \<Rightarrow> world \<Rightarrow> world" where
  "after_files e w = snd (install_files e (after_stop e w))"

definition after_persist :: "env \<Rightarrow> update_info \<Rightarrow> world \<Rightarrow> world" where
  "after_persist e info w = snd (persist_version info (after_files e w))"

section \<open>Basic facts about the model\<close>

lemmas sample_defs =
  sample_world_def idle_world_def with_version_def sample_version_def quiet_env_def
  sample_commit_def sample_archive_def sample_info_def fresh_world_def no_such_file_def

lemmas version_defs =
  get_update_info_def get_local_version_def create_default_version_def write_version_def
  write_version_file_def log_event_def default_version_def SCRIPT_VERSION_def GITHUB_REPO_def
  first_line_def stored_field_def

lemmas supervisor_defs =
  start_api_server_def stop_api_server_def restart_api_server_def get_server_process_def
  get_server_status_def binary_exists_def BINARY_def CONFIG_FILE_def sleep_def log_event_def
  exit_message_def API_PORT_def


lemma log_event_simps [simp]:
  "home (log_event es w) = home w"
  "procs (log_event es w) = procs w"
  "config_exists (log_event es w) = config_exists w"
  "version_file (log_event es w) = version_file w"
  "create_raises (log_event es w) = create_raises w"
  "bin_dir (log_event es w) = bin_dir w"
  "gui_dir (log_event es w) = gui_dir w"
  "events (log_event es w) = events w @ es"
  by (simp_all add: log_event_def)

lemma write_version_simps [simp]:
  "home (write_version v w) = home w"
  "procs (write_version v w) = procs w"
  "config_exists (write_version v w) = config_exists w"
  "version_file (write_version v w) = Parsed v"
  "create_raises (write_version v w) = create_raises w"
  "bin_dir (write_version v w) = bin_dir w"
  "gui_dir (write_version v w) = gui_dir w"
  "events (write_version v w) = events w @ [WriteVersion v]"
  by (simp_all add: write_version_def)

text \<open>A version file that exists is rewritten without an exception.\<close>

lemma write_version_file_exists:
  "version_file w \<noteq> Absent \<Longrightarrow> write_version_file v w = (None, write_version v w)"
  by (simp add: write_version_file_def split: vfile.splits)

lemma write_version_file_cases:
  "write_version_file v w = (None, write_version v w)
   \<or> (\<exists>x. version_file w = Absent \<and> create_raises w = Some x
          \<and> write_version_file v w = (Some x, w))"
  by (simp add: write_version_file_def split: vfile.splits option.splits)

text \<open>A read either leaves the machine as it is or writes the default record.\<close>

lemma get_local_version_cases:
  "get_local_version w = (fst (get_local_version w), w) \<or>
   get_local_version w = (Inr default_version, write_version default_version w)"
  by (simp add: get_local_version_def create_default_version_def write_version_file_def
           split: vfile.splits sum.splits bool.splits option.splits)

text \<open>After a read that returned a record, the version file exists.\<close>

lemma get_local_version_exists:
  "fst (get_local_version w) = Inr l \<Longrightarrow> version_file (snd (get_local_version w)) \<noteq> Absent"
  by (auto simp: get_local_version_def create_default_version_def write_version_file_def
           split: vfile.splits sum.splits bool.splits option.splits)

lemma get_local_version_frame:
  "home (snd (get_local_version w)) = home w"
  "procs (snd (get_local_version w)) = procs w"
  "config_exists (snd (get_local_version w)) = config_exists w"
  "create_raises (snd (get_local_version w)) = create_raises w"
  "bin_dir (snd (get_local_version w)) = bin_dir w"
  "gui_dir (snd (get_local_version w)) = gui_dir w"
  using get_local_version_cases [of w] by (auto simp: prod_eq_iff)

lemma py_in_default: "py_in ''commitSha'' default_version = Inr True"
  by (simp add: default_version_def)

lemma default_version_items:
  "py_getitem default_version ''commitSha'' = Inr (JStr ''unknown'')"
  "py_getitem default_version ''scripts'' = Inr (JStr SCRIPT_VERSION)"
  "\<exists>d. py_setitem default_version ''lastCheck'' v = Inr d"
  by (simp_all add: default_version_def)

text \<open>Reading twice gives the same record as reading once.\<close>

lemma get_local_version_idem:
  "fst (get_local_version (snd (get_local_version w))) = fst (get_local_version w)"
  using get_local_version_cases [of w]
proof
  assume "get_local_version w = (fst (get_local_version w), w)"
  then have "snd (get_local_version w) = w" by (simp add: prod_eq_iff)
  then show ?thesis by simp
next
  assume h: "get_local_version w = (Inr default_version, write_version default_version w)"
  then show ?thesis
    by (simp add: get_local_version_def [of "write_version default_version w"] py_in_default)
qed

lemma stored_field_after_read: "stored_field (snd (get_local_version w)) k = stored_field w k"
  by (simp add: stored_field_def get_local_version_idem)

lemma stored_commit_after_read: "stored_commit (snd (get_local_version w)) = stored_commit w"
  by (simp add: stored_commit_def stored_field_after_read)

lemma get_update_info_default:
  assumes "get_local_version w = (Inr default_version, w1)" and "fetched e = Inr c"
  shows "\<exists>info. fst (get_update_info e w) = Inr info \<and> error info = None \<and> hasUpdate info"
proof -
  obtain d where d: "py_setitem default_version ''lastCheck'' (JStr (now e)) = Inr d"
    using default_version_items(3) by blast
  have "version_file w1 \<noteq> Absent"
    using get_local_version_exists [of w default_version] assms(1) by simp
  then have wr: "write_version_file d w1 = (None, write_version d w1)"
    by (rule write_version_file_exists)
  show ?thesis
    using assms by (simp add: get_update_info_def default_version_items d wr)
qed

lemma hex_sha_not_unknown: "is_hex_sha s \<Longrightarrow> take 7 s \<noteq> ''unknown''"
proof
  assume h: "is_hex_sha s" and t: "take 7 s = ''unknown''"
  have "CHR ''u'' \<in> set (take 7 s)" by (simp add: t)
  then have u: "CHR ''u'' \<in> set s" by (rule in_set_takeD)
  from h have "\<forall>c\<in>set s. c \<in> set ''0123456789abcdef''"
    unfolding is_hex_sha_def list_all_iff .
  with u have "CHR ''u'' \<in> set ''0123456789abcdef''" by blast
  then show False by simp
qed

lemma digit_val_digit_char: "d < 10 \<Longrightarrow> digit_val (digit_char d) = d"
proof -
  assume "d < 10"
  then have "d \<in> {0, 1, 2, 3, 4, 5, 6, 7, 8, 9}" by auto
  then show ?thesis
    by (auto simp: digit_val_def digit_char_def)
qed

text \<open>The decimal rendering determines the number.\<close>

lemma read_nat_show_nat: "read_nat (show_nat n) = n"
proof (induction n rule: show_nat.induct)
  case (1 n)
  show ?case
  proof (cases "n < 10")
    case True
    then show ?thesis
      by (simp add: show_nat.simps [of n] read_nat_def digit_val_digit_char)
  next
    case False
    with 1 have "read_nat (show_nat (n div 10)) = n div 10" by simp
    with False show ?thesis
      by (simp add: show_nat.simps [of n] read_nat_def digit_val_digit_char)
  qed
qed

lemma show_nat_4242: "show_nat 4242 = ''4242''"
  by (simp add: show_nat.simps digit_char_def)

lemma status_of_process:
  "running (get_server_status e w) = (get_server_process w \<noteq> None)"
  "s_pid (get_server_status e w) = get_server_process w"
  by (simp_all add: get_server_status_def split: option.splits)

text \<open>A successful start found no process, leaves exactly the child in the process table
  and logs the launch and the half second of waiting.\<close>

lemma start_api_server_started:
  assumes "fst (start_api_server e w) = Started p"
  shows "get_server_process w = None"
    and "procs (snd (start_api_server e w)) = [p]"
    and "events (snd (start_api_server e w)) = events w @ [Launch p, Sleep 500]"
  using assms
  by (auto simp: start_api_server_def get_server_process_def Let_def
           split: option.splits list.splits if_splits)

section \<open>The update check\<close>

text \<open>
  Claim C3. For every stored version state and every successfully fetched remote commit,
  the update check sets \<^verbatim>\<open>hasUpdate\<close> to true exactly when the stored \<^verbatim>\<open>commitSha\<close> is the
  sentinel \<^verbatim>\<open>unknown\<close> or differs from the remote \<^verbatim>\<open>latestCommit\<close> (the first seven characters
  of the fetched object name); when the stored commit equals the remote commit, which is a
  hexadecimal name and so never the sentinel, \<^verbatim>\<open>hasUpdate\<close> is false.
\<close>

theorem hasUpdate_unknown_or_differs:
  assumes "fetched e = Inr c" and "fst (get_update_info e w) = Inr info"
  shows "stored_commit w = Inr (currentCommit info)
       \<and> latestCommit info = Some (take 7 (sha c))
       \<and> hasUpdate info =
           (currentCommit info = JStr ''unknown''
            \<or> currentCommit info \<noteq> JStr (take 7 (sha c)))
       \<and> (is_hex_sha (sha c) \<and> currentCommit info = JStr (take 7 (sha c))
            \<longrightarrow> \<not> hasUpdate info)"
proof -
  from assms have main:
    "stored_commit w = Inr (currentCommit info)
     \<and> latestCommit info = Some (take 7 (sha c))
     \<and> hasUpdate info =
         (currentCommit info = JStr ''unknown''
          \<or> currentCommit info \<noteq> JStr (take 7 (sha c)))"
    by (auto simp: get_update_info_def stored_commit_def stored_field_def Let_def
             split: prod.splits sum.splits option.splits)
  moreover have "\<not> hasUpdate info"
    if "is_hex_sha (sha c)" and "currentCommit info = JStr (take 7 (sha c))"
    using that main hex_sha_not_unknown [of "sha c"] by simp
  ultimately show ?thesis by blast
qed

text \<open>Witness for C3: commit \<^verbatim>\<open>abc1234\<close> installed gives an update, commit \<^verbatim>\<open>9f3c2ab\<close>
  installed gives none.\<close>

theorem hasUpdate_unknown_or_differs_witness:
  "fetched quiet_env = Inr sample_commit
   \<and> is_hex_sha (sha sample_commit)
   \<and> fst (get_update_info quiet_env sample_world) = Inr (sample_info ''abc1234'' True)
   \<and> hasUpdate (sample_info ''abc1234'' True)
   \<and> fst (get_update_info quiet_env (with_version (Parsed (sample_version ''9f3c2ab'')) sample_world))
       = Inr (sample_info ''9f3c2ab'' False)
   \<and> \<not> hasUpdate (sample_info ''9f3c2ab'' False)"
proof -
  have h1: "fetched quiet_env = Inr sample_commit"
    by (simp add: quiet_env_def)
  have h2: "fst (get_update_info quiet_env sample_world) = Inr (sample_info ''abc1234'' True)"
    by (simp add: version_defs sample_defs)
  have h3: "fst (get_update_info quiet_env
                  (with_version (Parsed (sample_version ''9f3c2ab'')) sample_world))
            = Inr (sample_info ''9f3c2ab'' False)"
    by (simp add: version_defs sample_defs)
  have h4: "is_hex_sha (sha sample_commit)"
    by (simp add: is_hex_sha_def sample_commit_def)
  have h5: "currentCommit (sample_info ''abc1234'' True) = JStr ''abc1234''
            \<and> currentCommit (sample_info ''9f3c2ab'' False) = JStr ''9f3c2ab''
            \<and> take 7 (sha sample_commit) = ''9f3c2ab''"
    by (simp add: sample_defs)
  show ?thesis
    using h1 h2 h3 h4 h5
      hasUpdate_unknown_or_differs [OF h1 h2] hasUpdate_unknown_or_differs [OF h1 h3]
    by auto
qed

section \<open>The version store\<close>




text \<open>
  Claim C10. If the version file exists but reading it as JSON raises,
  \<^verbatim>\<open>get_local_version\<close> returns normally: it overwrites the file with the full default
  record and returns that record, so the stored \<^verbatim>\<open>commitSha\<close> is from then on the sentinel
  \<^verbatim>\<open>unknown\<close>, and an update check that fetches the remote commit, on the unreadable file
  or after the read, reports \<^verbatim>\<open>hasUpdate\<close> true.
\<close>

theorem unparsable_version_file_reset:
  assumes "version_file w = Unparsable" and "fetched e = Inr c"
  shows "get_local_version w =
           (Inr default_version,
            w\<lparr>version_file := Parsed default_version,
              events := events w @ [WriteVersion default_version]\<rparr>)
       \<and> stored_commit (snd (get_local_version w)) = Inr (JStr ''unknown'')
       \<and> (\<exists>info. fst (get_update_info e (snd (get_local_version w))) = Inr info
                 \<and> error info = None \<and> hasUpdate info)
       \<and> (\<exists>info. fst (get_update_info e w) = Inr info
                 \<and> error info = None \<and> hasUpdate info)"
proof -
  have r: "get_local_version w = (Inr default_version, write_version default_version w)"
    using assms(1)
    by (simp add: get_local_version_def create_default_version_def write_version_file_def)
  have r2: "get_local_version (write_version default_version w)
            = (Inr default_version, write_version default_version w)"
    by (simp add: get_local_version_def py_in_default)
  have a: "get_local_version w =
           (Inr default_version,
            w\<lparr>version_file := Parsed default_version,
              events := events w @ [WriteVersion default_version]\<rparr>)"
    using r by (simp add: write_version_def log_event_def)
  have b: "stored_commit (snd (get_local_version w)) = Inr (JStr ''unknown'')"
    by (simp add: stored_commit_def stored_field_def r r2 default_version_items)
  have c1: "\<exists>info. fst (get_update_info e (snd (get_local_version w))) = Inr info
                 \<and> error info = None \<and> hasUpdate info"
    using get_update_info_default [OF r2 assms(2)] by (simp add: r)
  have c2: "\<exists>info. fst (get_update_info e w) = Inr info
                 \<and> error info = None \<and> hasUpdate info"
    by (rule get_update_info_default [OF r assms(2)])
  from a b c1 c2 show ?thesis by blast
qed

text \<open>Witness for C10: the sample machine with an unreadable version file.\<close>

theorem unparsable_version_file_reset_witness:
  "version_file (with_version Unparsable sample_world) = Unparsable
   \<and> fetched quiet_env = Inr sample_commit
   \<and> stored_commit (snd (get_local_version (with_version Unparsable sample_world)))
       = Inr (JStr ''unknown'')
   \<and> (\<exists>info. fst (get_update_info quiet_env (with_version Unparsable sample_world)) = Inr info
              \<and> error info = None \<and> hasUpdate info)"
proof -
  have h1: "version_file (with_version Unparsable sample_world) = Unparsable"
    by (simp add: with_version_def)
  have h2: "fetched quiet_env = Inr sample_commit"
    by (simp add: quiet_env_def)
  show ?thesis
    using h1 h2 unparsable_version_file_reset [OF h1 h2] by blast
qed

section \<open>Starting and restarting the server\<close>

text \<open>
  Claim C5. \<^verbatim>\<open>start_api_server\<close> fails with the already-running error whenever the locator
  finds a process, and the message shows the decimal pid of that process, which reads back
  as exactly that pid; if no process is found it fails with the binary-missing error when
  the executable is absent, and with the config-missing error when the executable is
  there and the configuration file is absent (the checks run in this order). In each of
  the three cases the machine is left as it was: nothing is launched.
\<close>

theorem start_api_server_rejections:
  "(get_server_process w = Some p
      \<longrightarrow> start_api_server e w =
            (Fail (''Server already running (PID: '' @ show_nat p @ '')''), w)
        \<and> read_nat (show_nat p) = p)
   \<and> (get_server_process w = None \<and> \<not> binary_exists w
      \<longrightarrow> start_api_server e w = (Fail (''Binary not found: '' @ BINARY w), w))
   \<and> (get_server_process w = None \<and> binary_exists w \<and> \<not> config_exists w
      \<longrightarrow> start_api_server e w = (Fail (''Config not found: '' @ CONFIG_FILE w), w))"
  by (simp add: start_api_server_def read_nat_show_nat)

text \<open>Witness for C5: the server runs as 4242; the binary is missing; the configuration
  file is missing.\<close>

theorem start_api_server_rejections_witness:
  "get_server_process sample_world = Some 4242
   \<and> start_api_server quiet_env sample_world
       = (Fail ''Server already running (PID: 4242)'', sample_world)
   \<and> get_server_process (idle_world\<lparr>bin_dir := Map.empty\<rparr>) = None
   \<and> start_api_server quiet_env (idle_world\<lparr>bin_dir := Map.empty\<rparr>)
       = (Fail ''Binary not found: /home/u/bin/cliproxyapi-plus'',
          idle_world\<lparr>bin_dir := Map.empty\<rparr>)
   \<and> start_api_server quiet_env (idle_world\<lparr>config_exists := False\<rparr>)
       = (Fail ''Config not found: /home/u/.cli-proxy-api/config.yaml'',
          idle_world\<lparr>config_exists := False\<rparr>)"
proof -
  have a: "get_server_process sample_world = Some 4242"
    by (simp add: get_server_process_def sample_world_def)
  have b: "get_server_process (idle_world\<lparr>bin_dir := Map.empty\<rparr>) = None
           \<and> \<not> binary_exists (idle_world\<lparr>bin_dir := Map.empty\<rparr>)"
    by (simp add: get_server_process_def binary_exists_def sample_defs)
  have c: "get_server_process (idle_world\<lparr>config_exists := False\<rparr>) = None
           \<and> binary_exists (idle_world\<lparr>config_exists := False\<rparr>)
           \<and> \<not> config_exists (idle_world\<lparr>config_exists := False\<rparr>)"
    by (simp add: get_server_process_def binary_exists_def sample_defs)
  have d: "BINARY (idle_world\<lparr>bin_dir := Map.empty\<rparr>) = ''/home/u/bin/cliproxyapi-plus''"
    by (simp add: BINARY_def sample_defs)
  have f: "CONFIG_FILE (idle_world\<lparr>config_exists := False\<rparr>)
           = ''/home/u/.cli-proxy-api/config.yaml''"
    by (simp add: CONFIG_FILE_def sample_defs)
  show ?thesis
    using a b c
      start_api_server_rejections [of sample_world 4242 quiet_env]
      start_api_server_rejections [of "idle_world\<lparr>bin_dir := Map.empty\<rparr>" 0 quiet_env]
      start_api_server_rejections [of "idle_world\<lparr>config_exists := False\<rparr>" 0 quiet_env]
    by (simp add: show_nat_4242 d f)
qed

text \<open>
  Claim C4. For every prior state, \<^verbatim>\<open>restart_api_server\<close> is \<^verbatim>\<open>stop_api_server\<close> with its
  answer dropped, half a second of waiting, then \<^verbatim>\<open>start_api_server\<close>; when nothing runs,
  the stop fails with the not-running error and the restart is the start all the same.
  Whenever the restart answers with success and pid \<open>p\<close>, the status read on the resulting
  machine reports \<^verbatim>\<open>running\<close> true with pid \<open>p\<close>, whatever ran before, and the launch came
  after the stop and the wait.
\<close>

theorem restart_api_server_ends_running:
  "restart_api_server e w = start_api_server e (sleep 500 (snd (stop_api_server e w)))
   \<and> (get_server_process w = None
        \<longrightarrow> fst (stop_api_server e w) = Fail ''Server not running''
          \<and> restart_api_server e w = start_api_server e (sleep 500 w))
   \<and> (fst (restart_api_server e w) = Started p
        \<longrightarrow> running (get_server_status e' (snd (restart_api_server e w)))
          \<and> s_pid (get_server_status e' (snd (restart_api_server e w))) = Some p
          \<and> events (snd (restart_api_server e w))
              = events (snd (stop_api_server e w)) @ [Sleep 500, Launch p, Sleep 500])"
proof -
  have shape: "restart_api_server e w = start_api_server e (sleep 500 (snd (stop_api_server e w)))"
    by (simp add: restart_api_server_def split: prod.splits)
  have idle: "fst (stop_api_server e w) = Fail ''Server not running''
          \<and> restart_api_server e w = start_api_server e (sleep 500 w)"
    if "get_server_process w = None"
    using that by (simp add: shape stop_api_server_def)
  have up: "running (get_server_status e' (snd (restart_api_server e w)))
          \<and> s_pid (get_server_status e' (snd (restart_api_server e w))) = Some p
          \<and> events (snd (restart_api_server e w))
              = events (snd (stop_api_server e w)) @ [Sleep 500, Launch p, Sleep 500]"
    if "fst (restart_api_server e w) = Started p"
  proof -
    from that have s: "fst (start_api_server e (sleep 500 (snd (stop_api_server e w)))) = Started p"
      by (simp add: shape)
    have "procs (snd (restart_api_server e w)) = [p]"
      using start_api_server_started(2) [OF s] by (simp add: shape)
    moreover have "events (snd (restart_api_server e w))
              = events (snd (stop_api_server e w)) @ [Sleep 500, Launch p, Sleep 500]"
      using start_api_server_started(3) [OF s] by (simp add: shape sleep_def)
    ultimately show ?thesis
      by (simp add: status_of_process get_server_process_def)
  qed
  from shape idle up show ?thesis by blast
qed

text \<open>Witness for C4: a restart with the server running as 4242, and one with no server.\<close>

theorem restart_api_server_ends_running_witness:
  "get_server_process sample_world = Some 4242
   \<and> fst (restart_api_server quiet_env sample_world) = Started 5151
   \<and> running (get_server_status quiet_env (snd (restart_api_server quiet_env sample_world)))
   \<and> s_pid (get_server_status quiet_env (snd (restart_api_server quiet_env sample_world)))
       = Some 5151
   \<and> get_server_process idle_world = None
   \<and> fst (restart_api_server quiet_env idle_world) = Started 5151
   \<and> running (get_server_status quiet_env (snd (restart_api_server quiet_env idle_world)))
   \<and> s_pid (get_server_status quiet_env (snd (restart_api_server quiet_env idle_world)))
       = Some 5151"
proof -
  have a: "get_server_process sample_world = Some 4242"
    by (simp add: get_server_process_def sample_world_def)
  have b: "fst (restart_api_server quiet_env sample_world) = Started 5151"
    by (simp add: supervisor_defs sample_defs)
  have c: "get_server_process idle_world = None"
    by (simp add: get_server_process_def sample_defs)
  have d: "fst (restart_api_server quiet_env idle_world) = Started 5151"
    by (simp add: supervisor_defs sample_defs)
  show ?thesis
    using a b c d
      restart_api_server_ends_running [of quiet_env sample_world 5151 quiet_env]
      restart_api_server_ends_running [of quiet_env idle_world 5151 quiet_env]
    by blast
qed

section \<open>How each step changes the machine\<close>

subsection \<open>The event log\<close>

lemma emits_iff: "emits P w w' = (\<exists>es. events w' = events w @ es \<and> list_all P es)"
proof
  assume "emits P w w'"
  then have "events w' = events w @ drop (length (events w)) (events w')"
        and "list_all P (drop (length (events w)) (events w'))"
    unfolding emits_def by (metis append_take_drop_id, simp)
  then show "\<exists>es. events w' = events w @ es \<and> list_all P es" by blast
next
  assume "\<exists>es. events w' = events w @ es \<and> list_all P es"
  then show "emits P w w'" by (auto simp: emits_def)
qed

lemma emits_refl [simp]: "emits P w w"
  by (simp add: emits_def)

lemma emits_same_events: "events w' = events w \<Longrightarrow> emits P w w'"
  by (simp add: emits_def)

lemma emits_trans: "emits P w w1 \<Longrightarrow> emits P w1 w2 \<Longrightarrow> emits P w w2"
  by (auto simp: emits_iff)

lemma emits_mono: "emits P w w' \<Longrightarrow> (\<And>ev. P ev \<Longrightarrow> Q ev) \<Longrightarrow> emits Q w w'"
  by (auto simp: emits_iff list_all_iff)

lemma emits_log_event: "list_all P es \<Longrightarrow> emits P w (log_event es w)"
  by (simp add: emits_iff)

lemma emits_write_version: "P (WriteVersion v) \<Longrightarrow> emits P w (write_version v w)"
  by (simp add: emits_iff)

subsection \<open>JSON objects\<close>

lemma getitem_in: "py_getitem d k = Inr x \<Longrightarrow> py_in k d = Inr True"
  by (cases d) (auto split: option.splits dest: map_of_SomeD intro: rev_image_eqI)

lemma setitem_in: "py_setitem d k v = Inr d' \<Longrightarrow> py_in k' d = Inr True \<Longrightarrow> py_in k' d' = Inr True"
  by (cases d) (force simp: dom_update)+

lemma setitem_getitem_other:
  "py_setitem d k v = Inr d' \<Longrightarrow> k' \<noteq> k \<Longrightarrow> py_getitem d' k' = py_getitem d k'"
  by (cases d) (auto simp: update_conv')

lemma setitem_getitem_same: "py_setitem d k v = Inr d' \<Longrightarrow> py_getitem d' k = Inr v"
  by (cases d) (auto simp: update_conv')

lemma setitem_defined: "py_in k' d = Inr True \<Longrightarrow> py_getitem d k' = Inr x \<Longrightarrow> \<exists>d'. py_setitem d k v = Inr d'"
  by (cases d) auto

subsection \<open>The version file decides what a read returns\<close>

lemma get_local_version_parsed:
  "version_file w = Parsed v \<Longrightarrow> py_in ''commitSha'' v = Inr True
     \<Longrightarrow> get_local_version w = (Inr v, w)"
  by (simp add: get_local_version_def)

lemma stored_field_parsed:
  "version_file w = Parsed v \<Longrightarrow> py_in ''commitSha'' v = Inr True
     \<Longrightarrow> stored_field w k = py_getitem v k"
  by (simp add: stored_field_def get_local_version_parsed)

lemma stored_commit_parsed:
  "version_file w = Parsed v \<Longrightarrow> py_getitem v ''commitSha'' = Inr x \<Longrightarrow> stored_commit w = Inr x"
  by (simp add: stored_commit_def stored_field_parsed getitem_in)

lemma fst_get_local_version_cong:
  "version_file w = version_file w' \<Longrightarrow> create_raises w = create_raises w'
     \<Longrightarrow> fst (get_local_version w) = fst (get_local_version w')"
  by (simp add: get_local_version_def create_default_version_def write_version_file_def
           split: vfile.splits sum.splits bool.splits option.splits)

lemma stored_field_cong:
  "version_file w = version_file w' \<Longrightarrow> create_raises w = create_raises w'
     \<Longrightarrow> stored_field w k = stored_field w' k"
  by (simp add: stored_field_def fst_get_local_version_cong [of w w'])

lemma get_local_version_emits: "emits is_write w (snd (get_local_version w))"
  using get_local_version_cases [of w]
  by (auto simp: prod_eq_iff emits_write_version)

subsection \<open>The update check\<close>

text \<open>The check leaves the machine as the read left it, or writes the record that the
  read returned with the time of the check in it.\<close>

lemma get_update_info_world:
  "snd (get_update_info e w) = snd (get_local_version w)
   \<or> (\<exists>l v. fst (get_local_version w) = Inr l
          \<and> py_setitem l ''lastCheck'' (JStr (now e)) = Inr v
          \<and> py_in ''commitSha'' l = Inr True
          \<and> snd (get_update_info e w) = write_version v (snd (get_local_version w)))"
proof -
  obtain r w1 where g: "get_local_version w = (r, w1)" by (cases "get_local_version w")
  show ?thesis
  proof (cases r)
    case (Inl x)
    with g show ?thesis by (simp add: get_update_info_def)
  next
    case (Inr l)
    have wr: "write_version_file v w1 = (None, write_version v w1)" for v
      using get_local_version_exists [of w l] g Inr
      by (intro write_version_file_exists) simp
    from g Inr show ?thesis
      by (auto simp: get_update_info_def Let_def getitem_in wr split: sum.splits)
  qed
qed

lemma get_update_info_frame:
  "home (snd (get_update_info e w)) = home w"
  "procs (snd (get_update_info e w)) = procs w"
  "config_exists (snd (get_update_info e w)) = config_exists w"
  "create_raises (snd (get_update_info e w)) = create_raises w"
  "bin_dir (snd (get_update_info e w)) = bin_dir w"
  "gui_dir (snd (get_update_info e w)) = gui_dir w"
  using get_update_info_world [of e w] by (auto simp: get_local_version_frame)

lemma get_update_info_emits: "emits is_write w (snd (get_update_info e w))"
  using get_update_info_world [of e w]
proof
  assume "snd (get_update_info e w) = snd (get_local_version w)"
  then show ?thesis by (simp add: get_local_version_emits)
next
  assume "\<exists>l v. fst (get_local_version w) = Inr l
          \<and> py_setitem l ''lastCheck'' (JStr (now e)) = Inr v
          \<and> py_in ''commitSha'' l = Inr True
          \<and> snd (get_update_info e w) = write_version v (snd (get_local_version w))"
  then obtain v where
    s: "snd (get_update_info e w) = write_version v (snd (get_local_version w))"
    by blast
  have "emits is_write (snd (get_local_version w)) (write_version v (snd (get_local_version w)))"
    by (simp add: emits_write_version)
  with get_local_version_emits [of w] show ?thesis
    unfolding s by (rule emits_trans)
qed

text \<open>The check rewrites at most the field \<^verbatim>\<open>lastCheck\<close> of the record that a read returns.\<close>

lemma get_update_info_fields:
  assumes "k \<noteq> ''lastCheck''"
  shows "stored_field (snd (get_update_info e w)) k = stored_field w k"
  using get_update_info_world [of e w]
proof
  assume "snd (get_update_info e w) = snd (get_local_version w)"
  then show ?thesis by (simp add: stored_field_after_read)
next
  assume "\<exists>l v. fst (get_local_version w) = Inr l
          \<and> py_setitem l ''lastCheck'' (JStr (now e)) = Inr v
          \<and> py_in ''commitSha'' l = Inr True
          \<and> snd (get_update_info e w) = write_version v (snd (get_local_version w))"
  then obtain l v where
    l: "fst (get_local_version w) = Inr l"
    and v: "py_setitem l ''lastCheck'' (JStr (now e)) = Inr v"
    and c: "py_in ''commitSha'' l = Inr True"
    and s: "snd (get_update_info e w) = write_version v (snd (get_local_version w))"
    by blast
  have "py_in ''commitSha'' v = Inr True"
    by (rule setitem_in [OF v c])
  then have "stored_field (snd (get_update_info e w)) k = py_getitem v k"
    by (intro stored_field_parsed) (simp_all add: s)
  also have "\<dots> = py_getitem l k"
    using assms by (intro setitem_getitem_other [OF v])
  also have "\<dots> = stored_field w k"
    by (simp add: stored_field_def l)
  finally show ?thesis .
qed

lemma get_update_info_stored_commit:
  "stored_commit (snd (get_update_info e w)) = stored_commit w"
  by (simp add: stored_commit_def get_update_info_fields)

lemma get_update_info_fetched_no_error:
  assumes "fetched e = Inr c" and "fst (get_update_info e w) = Inr info"
  shows "error info = None"
    and "latestCommit info = Some (take 7 (sha c))"
    and "latestCommitDate info = Some (author_date c)"
    and "latestCommitMessage info = first_line (commit_message c)"
proof -
  obtain r w1 where g: "get_local_version w = (r, w1)" by (cases "get_local_version w")
  have "error info = None \<and> latestCommit info = Some (take 7 (sha c))
        \<and> latestCommitDate info = Some (author_date c)
        \<and> latestCommitMessage info = first_line (commit_message c)"
  proof (cases r)
    case (Inl x)
    with g assms show ?thesis by (simp add: get_update_info_def)
  next
    case (Inr l)
    have wr: "write_version_file v w1 = (None, write_version v w1)" for v
      using get_local_version_exists [of w l] g Inr
      by (intro write_version_file_exists) simp
    show ?thesis
    proof (cases l)
      case (JObj kvs)
      with assms g Inr show ?thesis
        by (auto simp: get_update_info_def Let_def wr split: sum.splits option.splits)
    qed (use assms g Inr in \<open>auto simp: get_update_info_def Let_def\<close>)
  qed
  then show "error info = None"
    and "latestCommit info = Some (take 7 (sha c))"
    and "latestCommitDate info = Some (author_date c)"
    and "latestCommitMessage info = first_line (commit_message c)"
    by simp_all
qed

subsection \<open>Stopping and starting\<close>

lemma stop_api_server_frame:
  "home (snd (stop_api_server e w)) = home w"
  "config_exists (snd (stop_api_server e w)) = config_exists w"
  "create_raises (snd (stop_api_server e w)) = create_raises w"
  "version_file (snd (stop_api_server e w)) = version_file w"
  "bin_dir (snd (stop_api_server e w)) = bin_dir w"
  "gui_dir (snd (stop_api_server e w)) = gui_dir w"
  by (simp_all add: stop_api_server_def Let_def split: option.splits)

lemma stop_api_server_emits: "emits is_stop_event w (snd (stop_api_server e w))"
  by (simp add: stop_api_server_def Let_def emits_iff split: option.splits)

lemma stop_for_install_frame:
  "fst (stop_for_install e w) = (get_server_process w \<noteq> None)"
  "home (snd (stop_for_install e w)) = home w"
  "config_exists (snd (stop_for_install e w)) = config_exists w"
  "create_raises (snd (stop_for_install e w)) = create_raises w"
  "version_file (snd (stop_for_install e w)) = version_file w"
  "bin_dir (snd (stop_for_install e w)) = bin_dir w"
  "gui_dir (snd (stop_for_install e w)) = gui_dir w"
  by (simp_all add: stop_for_install_def Let_def sleep_def stop_api_server_frame)

lemma stop_for_install_idle:
  "get_server_process w = None \<Longrightarrow> stop_for_install e w = (False, w)"
  by (simp add: stop_for_install_def)

lemma stop_for_install_emits: "emits is_stop_event w (snd (stop_for_install e w))"
proof (cases "get_server_process w")
  case None
  then show ?thesis by (simp add: stop_for_install_idle)
next
  case (Some p)
  have "emits is_stop_event (snd (stop_api_server e w)) (sleep 1000 (snd (stop_api_server e w)))"
    by (simp add: sleep_def emits_log_event)
  with stop_api_server_emits [of w e] Some show ?thesis
    by (auto simp: stop_for_install_def intro: emits_trans)
qed

lemma start_api_server_frame:
  "home (snd (start_api_server e w)) = home w"
  "config_exists (snd (start_api_server e w)) = config_exists w"
  "create_raises (snd (start_api_server e w)) = create_raises w"
  "version_file (snd (start_api_server e w)) = version_file w"
  "bin_dir (snd (start_api_server e w)) = bin_dir w"
  "gui_dir (snd (start_api_server e w)) = gui_dir w"
  by (simp_all add: start_api_server_def Let_def split: option.splits)

lemma start_api_server_emits: "emits is_start_event w (snd (start_api_server e w))"
  by (simp add: start_api_server_def Let_def emits_iff split: option.splits)

text \<open>A start never takes a found process away.\<close>

lemma start_api_server_keeps_running:
  "get_server_process w \<noteq> None \<Longrightarrow> snd (start_api_server e w) = w"
  by (auto simp: start_api_server_def)

subsection \<open>The copy loops\<close>

lemma files_of_mem: "((name, content, mode) \<in> set (files_of items)) = ((name, File content mode) \<in> set items)"
  by (induction items rule: files_of.induct) auto

lemma files_of_names: "fst ` set (files_of items) \<subseteq> fst ` set items"
  by (induction items rule: files_of.induct) auto

lemma files_of_distinct: "distinct (map fst items) \<Longrightarrow> distinct (map fst (files_of items))"
proof (induction items rule: files_of.induct)
  case (3 name content mode items)
  then show ?case using files_of_names [of items] by auto
qed auto

lemma copy_scripts_frame:
  "home (snd (copy_scripts e items w)) = home w
   \<and> procs (snd (copy_scripts e items w)) = procs w
   \<and> config_exists (snd (copy_scripts e items w)) = config_exists w
   \<and> create_raises (snd (copy_scripts e items w)) = create_raises w
   \<and> version_file (snd (copy_scripts e items w)) = version_file w
   \<and> gui_dir (snd (copy_scripts e items w)) = gui_dir w"
  by (induction e items w rule: copy_scripts.induct) (auto split: option.splits)

lemma copy_scripts_emits:
  "emits (\<lambda>ev. is_file_event ev \<and> \<not> is_gui_event ev) w (snd (copy_scripts e items w))"
proof (induction e items w rule: copy_scripts.induct)
  case (3 e name content uu items w)
  show ?case
  proof (cases "copy_raises e Scripts name")
    case None
    let ?w1 = "log_event [CopyScript name] (w\<lparr>bin_dir := (bin_dir w)(name \<mapsto> (content, mode_755))\<rparr>)"
    have "emits (\<lambda>ev. is_file_event ev \<and> \<not> is_gui_event ev) w ?w1"
      by (simp add: emits_iff)
    with 3 [OF None] None show ?thesis
      by (auto intro: emits_trans)
  qed simp
qed simp_all

text \<open>The loop writes no file name other than those of the regular files it is given.\<close>

lemma copy_scripts_other:
  "name \<notin> fst ` set (files_of items)
     \<Longrightarrow> bin_dir (snd (copy_scripts e items w)) name = bin_dir w name"
  by (induction e items w rule: copy_scripts.induct) (auto split: option.splits)

text \<open>When the loop ends without an exception, every regular file is in place with its
  content and the mode \<^verbatim>\<open>0o755\<close>.\<close>

lemma copy_scripts_copied:
  "fst (copy_scripts e items w) = None \<Longrightarrow> distinct (map fst (files_of items))
     \<Longrightarrow> (name, content, mode) \<in> set (files_of items)
     \<Longrightarrow> bin_dir (snd (copy_scripts e items w)) name = Some (content, mode_755)"
proof (induction e items w rule: copy_scripts.induct)
  case (3 e n c m items w)
  from "3.prems"(1) have nr: "copy_raises e Scripts n = None"
    by (auto split: option.splits)
  let ?w1 = "log_event [CopyScript n] (w\<lparr>bin_dir := (bin_dir w)(n \<mapsto> (c, mode_755))\<rparr>)"
  have step: "copy_scripts e ((n, File c m) # items) w = copy_scripts e items ?w1"
    by (simp add: nr)
  show ?case
  proof (cases "(name, content, mode) \<in> set (files_of items)")
    case True
    with 3 nr step show ?thesis by auto
  next
    case False
    with "3.prems"(3) have eq: "name = n" "content = c" by auto
    from "3.prems"(2) have "n \<notin> fst ` set (files_of items)" by auto
    then have "bin_dir (snd (copy_scripts e items ?w1)) n = bin_dir ?w1 n"
      by (rule copy_scripts_other)
    then show ?thesis by (simp add: eq nr)
  qed
qed auto

lemma copy_scripts_raises:
  "(n, c, m) \<in> set (files_of items) \<Longrightarrow> copy_raises e Scripts n = Some x
     \<Longrightarrow> fst (copy_scripts e items w) \<noteq> None"
  by (induction e items w rule: copy_scripts.induct) (auto split: option.splits)

lemma mkdir_gui_frame:
  "home (mkdir_gui w) = home w
   \<and> procs (mkdir_gui w) = procs w
   \<and> config_exists (mkdir_gui w) = config_exists w
   \<and> create_raises (mkdir_gui w) = create_raises w
   \<and> version_file (mkdir_gui w) = version_file w
   \<and> bin_dir (mkdir_gui w) = bin_dir w"
  by (simp add: mkdir_gui_def split: option.splits)

lemma mkdir_gui_emits: "emits is_file_event w (mkdir_gui w)"
  by (simp add: mkdir_gui_def emits_iff split: option.splits)

lemma copy_gui_frame:
  "home (snd (copy_gui e items w)) = home w
   \<and> procs (snd (copy_gui e items w)) = procs w
   \<and> config_exists (snd (copy_gui e items w)) = config_exists w
   \<and> create_raises (snd (copy_gui e items w)) = create_raises w
   \<and> version_file (snd (copy_gui e items w)) = version_file w
   \<and> bin_dir (snd (copy_gui e items w)) = bin_dir w"
  by (induction e items w rule: copy_gui.induct) (auto split: option.splits)

lemma copy_gui_emits: "emits is_file_event w (snd (copy_gui e items w))"
proof (induction e items w rule: copy_gui.induct)
  case (3 e name content mode items w)
  show ?case
  proof (cases "copy_raises e Gui name")
    case None
    note nr = None
    show ?thesis
    proof (cases "gui_dir w")
      case (Some d)
      let ?w1 = "log_event [CopyGui name] (w\<lparr>gui_dir := Some (d(name \<mapsto> (content, mode)))\<rparr>)"
      have "emits is_file_event w ?w1"
        by (simp add: emits_iff)
      with 3 [OF nr Some] nr Some show ?thesis
        by (auto intro: emits_trans)
    qed (simp add: nr)
  qed simp
qed simp_all

subsection \<open>Download, extraction and copies\<close>

lemma file_not_gui: "is_file_event ev \<and> \<not> is_gui_event ev \<Longrightarrow> is_file_event ev"
  by simp

lemma install_scripts_frame:
  "home (snd (install_scripts e n folder w)) = home w
   \<and> procs (snd (install_scripts e n folder w)) = procs w
   \<and> config_exists (snd (install_scripts e n folder w)) = config_exists w
   \<and> create_raises (snd (install_scripts e n folder w)) = create_raises w
   \<and> version_file (snd (install_scripts e n folder w)) = version_file w
   \<and> gui_dir (snd (install_scripts e n folder w)) = gui_dir w"
  by (simp add: install_scripts_def copy_scripts_frame split: option.splits node.splits)

lemma install_scripts_emits:
  "emits (\<lambda>ev. is_file_event ev \<and> \<not> is_gui_event ev) w (snd (install_scripts e n folder w))"
  by (simp add: install_scripts_def copy_scripts_emits split: option.splits node.splits)

lemma install_gui_frame:
  "home (snd (install_gui e n folder w)) = home w
   \<and> procs (snd (install_gui e n folder w)) = procs w
   \<and> config_exists (snd (install_gui e n folder w)) = config_exists w
   \<and> create_raises (snd (install_gui e n folder w)) = create_raises w
   \<and> version_file (snd (install_gui e n folder w)) = version_file w
   \<and> bin_dir (snd (install_gui e n folder w)) = bin_dir w"
  by (simp add: install_gui_def copy_gui_frame mkdir_gui_frame split: option.splits node.splits)

lemma install_gui_emits: "emits is_file_event w (snd (install_gui e n folder w))"
  using mkdir_gui_emits [of w] copy_gui_emits [of "mkdir_gui w" e]
  by (auto simp: install_gui_def split: option.splits node.splits intro: emits_trans)

lemma install_gui_absent:
  "map_of (children folder) ''gui'' = None \<Longrightarrow> install_gui e n folder w = (None, w)"
  by (simp add: install_gui_def)

text \<open>The outcome of the block, by cases on what the environment answers.\<close>

lemma install_files_download_raises:
  "download_raises e = Some x \<Longrightarrow> install_files e w = (Some x, w)"
  by (simp add: install_files_def)

lemma install_files_extract_raises:
  "download_raises e = None \<Longrightarrow> extracted e = Inl x
     \<Longrightarrow> install_files e w = (Some x, log_event [Download] w)"
  by (simp add: install_files_def)

lemma install_files_no_folder:
  "download_raises e = None \<Longrightarrow> extracted e = Inr entries
     \<Longrightarrow> filter (\<lambda>d. is_dir (snd d)) entries = []
     \<Longrightarrow> install_files e w
          = (Some ''No folder found in archive'', log_event [Extract] (log_event [Download] w))"
  by (simp add: install_files_def)

lemma install_files_folder:
  "download_raises e = None \<Longrightarrow> extracted e = Inr entries
     \<Longrightarrow> filter (\<lambda>d. is_dir (snd d)) entries = (n, folder) # rest
     \<Longrightarrow> install_files e w
          = (case install_scripts e n folder (log_event [Extract] (log_event [Download] w)) of
               (Some x, w3) \<Rightarrow> (Some x, w3)
             | (None, w3) \<Rightarrow> install_gui e n folder w3)"
  by (simp add: install_files_def)

lemma install_files_cases:
  "(\<exists>x. download_raises e = Some x \<and> install_files e w = (Some x, w))
   \<or> (\<exists>x. install_files e w = (Some x, log_event [Download] w))
   \<or> (\<exists>x. install_files e w = (Some x, log_event [Extract] (log_event [Download] w)))
   \<or> (\<exists>entries n folder rest x.
         download_raises e = None \<and> extracted e = Inr entries
         \<and> filter (\<lambda>d. is_dir (snd d)) entries = (n, folder) # rest
         \<and> install_files e w
             = (Some x, snd (install_scripts e n folder
                              (log_event [Extract] (log_event [Download] w)))))
   \<or> (\<exists>entries n folder rest.
         download_raises e = None \<and> extracted e = Inr entries
         \<and> filter (\<lambda>d. is_dir (snd d)) entries = (n, folder) # rest
         \<and> fst (install_scripts e n folder (log_event [Extract] (log_event [Download] w))) = None
         \<and> install_files e w
             = install_gui e n folder
                 (snd (install_scripts e n folder
                        (log_event [Extract] (log_event [Download] w)))))"
  by (auto simp: install_files_def Let_def split: option.splits sum.splits list.splits prod.splits)

lemma install_files_frame:
  "home (snd (install_files e w)) = home w
   \<and> procs (snd (install_files e w)) = procs w
   \<and> config_exists (snd (install_files e w)) = config_exists w
   \<and> create_raises (snd (install_files e w)) = create_raises w
   \<and> version_file (snd (install_files e w)) = version_file w"
  using install_files_cases [of e w]
  by (auto simp: install_scripts_frame install_gui_frame)

lemma install_files_emits: "emits is_file_event w (snd (install_files e w))"
proof -
  let ?w2 = "log_event [Extract] (log_event [Download] w)"
  have a: "emits is_file_event w (log_event [Download] w)"
    by (simp add: emits_iff)
  have b: "emits is_file_event w ?w2"
    by (simp add: emits_iff)
  have c: "emits is_file_event w (snd (install_scripts e n folder ?w2))" for n folder
    using b emits_mono [OF install_scripts_emits [of ?w2 e n folder] file_not_gui]
    by (rule emits_trans)
  have d: "emits is_file_event w
             (snd (install_gui e n folder (snd (install_scripts e n folder ?w2))))" for n folder
    using c [of n folder] install_gui_emits by (rule emits_trans)
  from install_files_cases [of e w] a b c d show ?thesis
    by (auto simp del: log_event_simps)
qed

text \<open>An archive whose first folder has no \<^verbatim>\<open>gui\<close> entry: the block is download,
  extraction and the \<^verbatim>\<open>scripts\<close> step, and the GUI directory is not touched.\<close>

lemma install_files_without_gui:
  assumes "extracted e = Inr entries"
      and "filter (\<lambda>d. is_dir (snd d)) entries = (n, folder) # rest"
      and "map_of (children folder) ''gui'' = None"
  shows "gui_dir (snd (install_files e w)) = gui_dir w"
    and "emits (\<lambda>ev. \<not> is_gui_event ev) w (snd (install_files e w))"
    and "download_raises e = None
         \<Longrightarrow> install_files e w
             = install_scripts e n folder (log_event [Extract] (log_event [Download] w))"
proof -
  let ?w2 = "log_event [Extract] (log_event [Download] w)"
  have eq: "install_files e w = install_scripts e n folder ?w2" if "download_raises e = None"
    using that assms
    by (simp add: install_files_folder [OF that assms(1,2)] install_gui_absent
             split: prod.splits option.splits)
  then show "download_raises e = None
         \<Longrightarrow> install_files e w
             = install_scripts e n folder (log_event [Extract] (log_event [Download] w))" .
  have w2: "emits (\<lambda>ev. \<not> is_gui_event ev) w ?w2"
    by (simp add: emits_iff)
  have sc: "emits (\<lambda>ev. \<not> is_gui_event ev) ?w2 (snd (install_scripts e n folder ?w2))"
    by (rule emits_mono [OF install_scripts_emits]) simp
  show "gui_dir (snd (install_files e w)) = gui_dir w"
  proof (cases "download_raises e")
    case None
    then show ?thesis by (simp add: eq install_scripts_frame)
  next
    case (Some x)
    then show ?thesis by (simp add: install_files_download_raises)
  qed
  show "emits (\<lambda>ev. \<not> is_gui_event ev) w (snd (install_files e w))"
  proof (cases "download_raises e")
    case None
    with emits_trans [OF w2 sc] show ?thesis by (simp add: eq)
  next
    case (Some x)
    then show ?thesis by (simp add: install_files_download_raises)
  qed
qed

subsection \<open>Persisting the version\<close>

lemma persist_version_world:
  "snd (persist_version info w) = snd (get_local_version w)
   \<or> (\<exists>v. snd (persist_version info w) = write_version v (snd (get_local_version w)))"
proof -
  obtain r w1 where g: "get_local_version w = (r, w1)" by (cases "get_local_version w")
  show ?thesis
  proof (cases r)
    case (Inl x)
    with g show ?thesis by (simp add: persist_version_def)
  next
    case (Inr l)
    have "snd (write_version_file v w1) = w1 \<or> snd (write_version_file v w1) = write_version v w1"
      for v using write_version_file_cases [of v w1] by auto
    with g Inr show ?thesis
      by (auto simp: persist_version_def split: sum.splits)
  qed
qed

lemma persist_version_frame:
  "home (snd (persist_version info w)) = home w
   \<and> procs (snd (persist_version info w)) = procs w
   \<and> config_exists (snd (persist_version info w)) = config_exists w
   \<and> create_raises (snd (persist_version info w)) = create_raises w
   \<and> bin_dir (snd (persist_version info w)) = bin_dir w
   \<and> gui_dir (snd (persist_version info w)) = gui_dir w"
  using persist_version_world [of info w] by (auto simp: get_local_version_frame)

lemma persist_version_emits: "emits is_write w (snd (persist_version info w))"
proof -
  have "emits is_write (snd (get_local_version w)) (write_version v (snd (get_local_version w)))"
    for v by (simp add: emits_write_version)
  with get_local_version_emits [of w]
  have "emits is_write w (write_version v (snd (get_local_version w)))" for v
    by (rule emits_trans)
  with get_local_version_emits [of w] persist_version_world [of info w] show ?thesis
    by auto
qed

text \<open>A failed persist has written nothing but, possibly, the default record; a successful
  one ends with the write of a record that carries the two new fields.\<close>

lemma persist_version_failed:
  assumes "fst (persist_version info w) = Some x"
  shows "snd (persist_version info w) = snd (get_local_version w)"
proof -
  obtain r w1 where g: "get_local_version w = (r, w1)" by (cases "get_local_version w")
  show ?thesis
  proof (cases r)
    case (Inl y)
    with g show ?thesis by (simp add: persist_version_def)
  next
    case (Inr l)
    have "fst (write_version_file v w1) = Some y \<Longrightarrow> snd (write_version_file v w1) = w1"
      for v y using write_version_file_cases [of v w1] by auto
    with g Inr assms show ?thesis
      by (auto simp: persist_version_def split: sum.splits)
  qed
qed

lemma persist_version_done:
  assumes "fst (persist_version info w) = None"
  shows "\<exists>v pre. events (snd (persist_version info w)) = events w @ pre @ [WriteVersion v]
           \<and> list_all is_write pre
           \<and> version_file (snd (persist_version info w)) = Parsed v
           \<and> py_getitem v ''commitSha'' = Inr (json_of_opt (latestCommit info))
           \<and> py_getitem v ''commitDate'' = Inr (json_of_opt (latestCommitDate info))"
proof -
  obtain r w1 where g: "get_local_version w = (r, w1)" by (cases "get_local_version w")
  from assms g obtain l where r: "r = Inr l"
    by (cases r) (simp_all add: persist_version_def)
  have wr: "write_version_file v w1 = (None, write_version v w1)" for v
    using get_local_version_exists [of w l] g r
    by (intro write_version_file_exists) simp
  from assms g r obtain l1 l2 where
    s1: "py_setitem l ''commitSha'' (json_of_opt (latestCommit info)) = Inr l1"
    and s2: "py_setitem l1 ''commitDate'' (json_of_opt (latestCommitDate info)) = Inr l2"
    and res: "persist_version info w = (None, write_version l2 w1)"
    by (auto simp: persist_version_def wr split: sum.splits)
  from get_local_version_emits [of w] g obtain pre where
    pre: "events w1 = events w @ pre" "list_all is_write pre"
    by (auto simp: emits_iff)
  have "py_getitem l2 ''commitSha'' = py_getitem l1 ''commitSha''"
    by (rule setitem_getitem_other [OF s2]) simp
  also have "\<dots> = Inr (json_of_opt (latestCommit info))"
    by (rule setitem_getitem_same [OF s1])
  finally have c: "py_getitem l2 ''commitSha'' = Inr (json_of_opt (latestCommit info))" .
  have d: "py_getitem l2 ''commitDate'' = Inr (json_of_opt (latestCommitDate info))"
    by (rule setitem_getitem_same [OF s2])
  from res pre c d show ?thesis by auto
qed

section \<open>The install as a sequence of steps\<close>

lemma get_server_process_cong:
  "procs w = procs w' \<Longrightarrow> get_server_process w = get_server_process w'"
  by (simp add: get_server_process_def)

lemma after_check_frame:
  "home (after_check e w) = home w"
  "procs (after_check e w) = procs w"
  "config_exists (after_check e w) = config_exists w"
  "bin_dir (after_check e w) = bin_dir w"
  "gui_dir (after_check e w) = gui_dir w"
  "create_raises (after_check e w) = create_raises w"
  by (simp_all add: after_check_def get_update_info_frame)

lemma after_stop_frame:
  "home (after_stop e w) = home w"
  "config_exists (after_stop e w) = config_exists w"
  "version_file (after_stop e w) = version_file (after_check e w)"
  "bin_dir (after_stop e w) = bin_dir w"
  "gui_dir (after_stop e w) = gui_dir w"
  "create_raises (after_stop e w) = create_raises w"
  by (simp_all add: after_stop_def stop_for_install_frame after_check_frame)

lemma after_stop_idle:
  "get_server_process w = None \<Longrightarrow> after_stop e w = after_check e w"
proof -
  assume "get_server_process w = None"
  then have "get_server_process (after_check e w) = None"
    using get_server_process_cong [OF after_check_frame(2), of e w] by simp
  then show ?thesis
    by (simp add: after_stop_def stop_for_install_idle)
qed

lemma after_files_frame:
  "home (after_files e w) = home w"
  "procs (after_files e w) = procs (after_stop e w)"
  "config_exists (after_files e w) = config_exists w"
  "version_file (after_files e w) = version_file (after_check e w)"
  "create_raises (after_files e w) = create_raises w"
  by (simp_all add: after_files_def install_files_frame after_stop_frame)

lemma after_persist_frame:
  "home (after_persist e info w) = home w"
  "procs (after_persist e info w) = procs (after_stop e w)"
  "config_exists (after_persist e info w) = config_exists w"
  "bin_dir (after_persist e info w) = bin_dir (after_files e w)"
  "gui_dir (after_persist e info w) = gui_dir (after_files e w)"
  "create_raises (after_persist e info w) = create_raises w"
  by (simp_all add: after_persist_def persist_version_frame after_files_frame)

text \<open>What happens to the log between the steps.\<close>

lemma stage_emits:
  "emits is_write w (after_check e w)"
  "emits is_stop_event (after_check e w) (after_stop e w)"
  "emits is_file_event (after_stop e w) (after_files e w)"
  "emits is_write (after_files e w) (after_persist e info w)"
  by (simp_all add: after_check_def after_stop_def after_files_def after_persist_def
        get_update_info_emits stop_for_install_emits install_files_emits persist_version_emits)

lemma emits_chain3:
  assumes "emits P1 w w1" "emits P2 w1 w2" "emits P3 w2 w3"
      and "\<And>ev. P1 ev \<Longrightarrow> Q ev" "\<And>ev. P2 ev \<Longrightarrow> Q ev" "\<And>ev. P3 ev \<Longrightarrow> Q ev"
  shows "emits Q w w3"
proof -
  have "emits Q w w1" by (rule emits_mono [OF assms(1)]) (rule assms(4))
  moreover have "emits Q w1 w2" by (rule emits_mono [OF assms(2)]) (rule assms(5))
  moreover have "emits Q w2 w3" by (rule emits_mono [OF assms(3)]) (rule assms(6))
  ultimately show ?thesis by (blast intro: emits_trans)
qed

text \<open>Up to the end of the copies nothing is launched.\<close>

lemma no_launch_before_persist: "emits (\<lambda>ev. \<not> is_launch ev) w (after_files e w)"
proof (rule emits_chain3 [OF stage_emits(1) stage_emits(2) stage_emits(3)])
  show "is_write ev \<Longrightarrow> \<not> is_launch ev" for ev by (cases ev) simp_all
  show "is_stop_event ev \<Longrightarrow> \<not> is_launch ev" for ev by (cases ev) simp_all
  show "is_file_event ev \<Longrightarrow> \<not> is_launch ev" for ev by (cases ev) simp_all
qed

text \<open>After the check, no step before the persist writes the version file.\<close>

lemma no_write_between: "emits (\<lambda>ev. \<not> is_write ev) (after_check e w) (after_files e w)"
proof (rule emits_chain3 [OF emits_refl [where P = "\<lambda>ev. \<not> is_write ev"]
                            stage_emits(2) stage_emits(3)])
  show "is_stop_event ev \<Longrightarrow> \<not> is_write ev" for ev by (cases ev) simp_all
  show "is_file_event ev \<Longrightarrow> \<not> is_write ev" for ev by (cases ev) simp_all
  show "\<not> is_write ev \<Longrightarrow> \<not> is_write ev" for ev by simp
qed

text \<open>The answer and the final machine of \<^verbatim>\<open>install_update\<close>, step by step.\<close>

lemma install_and_persist_stages:
  "install_and_persist e info (after_check e w) =
     (case fst (install_files e (after_stop e w)) of
        Some x \<Rightarrow> (Some x, get_server_process w \<noteq> None, after_files e w)
      | None \<Rightarrow> (fst (persist_version info (after_files e w)), get_server_process w \<noteq> None,
                 after_persist e info w))"
proof -
  have p: "get_server_process (after_check e w) = get_server_process w"
    by (rule get_server_process_cong) (rule after_check_frame)
  obtain r w2 where f: "install_files e (after_stop e w) = (r, w2)"
    by (cases "install_files e (after_stop e w)")
  obtain r' w3 where g: "persist_version info w2 = (r', w3)"
    by (cases "persist_version info w2")
  have s: "stop_for_install e (after_check e w) = (get_server_process w \<noteq> None, after_stop e w)"
    by (simp add: prod_eq_iff stop_for_install_frame(1) p after_stop_def)
  show ?thesis
    using f g
    by (simp add: install_and_persist_def s after_files_def after_persist_def
             split: option.splits)
qed

lemma install_update_check_raises:
  "fst (get_update_info e w) = Inl x \<Longrightarrow> install_update e w = (Fail x, after_check e w)"
  by (cases "get_update_info e w") (simp add: install_update_def after_check_def)

lemma install_update_check_error:
  "fst (get_update_info e w) = Inr info \<Longrightarrow> error info = Some x \<Longrightarrow> x \<noteq> ''''
     \<Longrightarrow> install_update e w = (Fail (''Failed to get update info: '' @ x), after_check e w)"
  by (cases "get_update_info e w") (simp add: install_update_def after_check_def)

lemma install_update_checked:
  "fst (get_update_info e w) = Inr info \<Longrightarrow> error info = None \<or> error info = Some ''''
     \<Longrightarrow> install_update e w = install_after_check e info (after_check e w)"
  by (cases "get_update_info e w") (auto simp: install_update_def after_check_def)

lemma install_update_files_failed:
  assumes "fst (get_update_info e w) = Inr info"
      and "error info = None \<or> error info = Some ''''"
      and "fst (install_files e (after_stop e w)) = Some x"
  shows "install_update e w = (Fail x, after_files e w)"
  using assms(3)
  by (simp add: install_update_checked [OF assms(1,2)] install_after_check_def
                install_and_persist_stages)

lemma install_update_persist_failed:
  assumes "fst (get_update_info e w) = Inr info"
      and "error info = None \<or> error info = Some ''''"
      and "fst (install_files e (after_stop e w)) = None"
      and "fst (persist_version info (after_files e w)) = Some x"
  shows "install_update e w = (Fail x, after_persist e info w)"
  using assms(3,4)
  by (simp add: install_update_checked [OF assms(1,2)] install_after_check_def
                install_and_persist_stages)

lemma install_update_installed:
  assumes "fst (get_update_info e w) = Inr info"
      and "error info = None \<or> error info = Some ''''"
      and "fst (install_files e (after_stop e w)) = None"
      and "fst (persist_version info (after_files e w)) = None"
  shows "install_update e w =
           (Installed (latestCommit info) (latestCommitMessage info),
            if get_server_process w \<noteq> None
            then snd (start_api_server e (after_persist e info w))
            else after_persist e info w)"
  using assms(3,4)
  by (simp add: install_update_checked [OF assms(1,2)] install_after_check_def
                install_and_persist_stages)

text \<open>Every run of \<^verbatim>\<open>install_update\<close> is one of these five.\<close>

lemma install_update_cases:
  "(\<exists>x. install_update e w = (Fail x, after_check e w))
   \<or> (\<exists>x. fst (install_files e (after_stop e w)) = Some x
          \<and> install_update e w = (Fail x, after_files e w))
   \<or> (\<exists>info x. fst (install_files e (after_stop e w)) = None
          \<and> install_update e w = (Fail x, after_persist e info w))
   \<or> (\<exists>info. fst (install_files e (after_stop e w)) = None
          \<and> install_update e w =
               (Installed (latestCommit info) (latestCommitMessage info),
                if get_server_process w \<noteq> None
                then snd (start_api_server e (after_persist e info w))
                else after_persist e info w))"
proof (cases "fst (get_update_info e w)")
  case (Inl x)
  then show ?thesis by (simp add: install_update_check_raises)
next
  case (Inr info)
  show ?thesis
  proof (cases "error info = None \<or> error info = Some ''''")
    case False
    then obtain x where "error info = Some x" "x \<noteq> ''''" by (cases "error info") auto
    with Inr show ?thesis by (simp add: install_update_check_error)
  next
    case True
    note ok = this
    show ?thesis
    proof (cases "fst (install_files e (after_stop e w))")
      case (Some x)
      with install_update_files_failed [OF Inr ok Some] show ?thesis by simp
    next
      case None
      note files = this
      show ?thesis
      proof (cases "fst (persist_version info (after_files e w))")
        case (Some x)
        with install_update_persist_failed [OF Inr ok files Some] files show ?thesis by blast
      next
        case None
        with install_update_installed [OF Inr ok files None] files show ?thesis by blast
      qed
    qed
  qed
qed

lemma checked_version_is_object:
  assumes "fetched e = Inr c" and "fst (get_update_info e w) = Inr info"
  shows "\<exists>v. version_file (after_check e w) = Parsed v \<and> py_in ''commitSha'' v = Inr True
            \<and> (\<exists>kvs. v = JObj kvs)"
proof -
  obtain r w1 where g: "get_local_version w = (r, w1)" by (cases "get_local_version w")
  show ?thesis
  proof (cases r)
    case (Inl x)
    with assms g show ?thesis by (simp add: get_update_info_def)
  next
    case (Inr l)
    have wr: "write_version_file v w1 = (None, write_version v w1)" for v
      using get_local_version_exists [of w l] g Inr
      by (intro write_version_file_exists) simp
    show ?thesis
    proof (cases l)
      case (JObj kvs)
      with assms g Inr show ?thesis
        by (auto simp: get_update_info_def after_check_def dom_update wr
                 split: sum.splits option.splits dest!: map_of_SomeD intro: rev_image_eqI)
    qed (use assms g Inr in \<open>auto simp: get_update_info_def\<close>)
  qed
qed

lemma persist_version_object:
  "version_file w = Parsed (JObj kvs) \<Longrightarrow> py_in ''commitSha'' (JObj kvs) = Inr True
     \<Longrightarrow> fst (persist_version info w) = None"
  by (simp add: persist_version_def get_local_version_parsed write_version_file_exists)

lemma persist_after_fetch:
  assumes "fetched e = Inr c" and "fst (get_update_info e w) = Inr info"
  shows "fst (persist_version info' (after_files e w)) = None"
proof -
  from checked_version_is_object [OF assms] obtain kvs where
    "version_file (after_check e w) = Parsed (JObj kvs)"
    "py_in ''commitSha'' (JObj kvs) = Inr True" by blast
  then show ?thesis
    by (intro persist_version_object [of _ kvs]) (simp_all add: after_files_frame)
qed

lemma get_local_version_writes_commit:
  "emits (writes_commit (stored_commit w)) w (snd (get_local_version w))"
  using get_local_version_cases [of w]
proof
  assume "get_local_version w = (fst (get_local_version w), w)"
  then have "snd (get_local_version w) = w" by (simp add: prod_eq_iff)
  then show ?thesis by simp
next
  assume h: "get_local_version w = (Inr default_version, write_version default_version w)"
  then have "stored_commit w = py_getitem default_version ''commitSha''"
    by (simp add: stored_commit_def stored_field_def)
  with h show ?thesis by (simp add: emits_iff)
qed

lemma after_check_writes_commit:
  "emits (writes_commit (stored_commit w)) w (after_check e w)"
  using get_update_info_world [of e w]
proof
  assume "snd (get_update_info e w) = snd (get_local_version w)"
  then show ?thesis by (simp add: after_check_def get_local_version_writes_commit)
next
  assume "\<exists>l v. fst (get_local_version w) = Inr l
          \<and> py_setitem l ''lastCheck'' (JStr (now e)) = Inr v
          \<and> py_in ''commitSha'' l = Inr True
          \<and> snd (get_update_info e w) = write_version v (snd (get_local_version w))"
  then obtain l v where
    l: "fst (get_local_version w) = Inr l"
    and v: "py_setitem l ''lastCheck'' (JStr (now e)) = Inr v"
    and s: "after_check e w = write_version v (snd (get_local_version w))"
    unfolding after_check_def by blast
  have "py_getitem v ''commitSha'' = py_getitem l ''commitSha''"
    by (rule setitem_getitem_other [OF v]) simp
  then have "py_getitem v ''commitSha'' = stored_commit w"
    by (simp add: stored_commit_def stored_field_def l)
  then have "emits (writes_commit (stored_commit w)) (snd (get_local_version w))
               (write_version v (snd (get_local_version w)))"
    by (simp add: emits_iff)
  with get_local_version_writes_commit [of w] show ?thesis
    unfolding s by (rule emits_trans)
qed

text \<open>Up to the end of the copies nothing is launched, and whatever is written to the
  version file carries the commit that was stored at the beginning.\<close>

lemma old_commit_before_persist:
  "emits (\<lambda>ev. \<not> is_launch ev \<and> writes_commit (stored_commit w) ev) w (after_files e w)"
proof (rule emits_chain3 [OF _ stage_emits(2) stage_emits(3)])
  show "emits (\<lambda>ev. is_write ev \<and> writes_commit (stored_commit w) ev) w (after_check e w)"
    using stage_emits(1) [of w e] after_check_writes_commit [of w e]
    by (auto simp: emits_def list_all_iff)
  show "is_write ev \<and> writes_commit (stored_commit w) ev
          \<Longrightarrow> \<not> is_launch ev \<and> writes_commit (stored_commit w) ev" for ev
    by (cases ev) simp_all
  show "is_stop_event ev \<Longrightarrow> \<not> is_launch ev \<and> writes_commit (stored_commit w) ev" for ev
    by (cases ev) simp_all
  show "is_file_event ev \<Longrightarrow> \<not> is_launch ev \<and> writes_commit (stored_commit w) ev" for ev
    by (cases ev) simp_all
qed

lemma persist_version_object_done:
  assumes "version_file w = Parsed (JObj kvs)" and "py_in ''commitSha'' (JObj kvs) = Inr True"
  shows "\<exists>v. events (snd (persist_version info w)) = events w @ [WriteVersion v]
           \<and> version_file (snd (persist_version info w)) = Parsed v
           \<and> py_getitem v ''commitSha'' = Inr (json_of_opt (latestCommit info))
           \<and> py_getitem v ''commitDate'' = Inr (json_of_opt (latestCommitDate info))"
proof -
  obtain kvs1 where
    s1: "py_setitem (JObj kvs) ''commitSha'' (json_of_opt (latestCommit info)) = Inr (JObj kvs1)"
    by simp
  obtain l2 where
    s2: "py_setitem (JObj kvs1) ''commitDate'' (json_of_opt (latestCommitDate info)) = Inr l2"
    by simp
  have "version_file w \<noteq> Absent"
    by (simp add: assms(1))
  then have wr: "write_version_file l2 w = (None, write_version l2 w)"
    by (rule write_version_file_exists)
  have r: "persist_version info w = (None, write_version l2 w)"
    using s1 s2 by (simp add: persist_version_def get_local_version_parsed [OF assms] wr)
  have "py_getitem l2 ''commitSha'' = py_getitem (JObj kvs1) ''commitSha''"
    by (rule setitem_getitem_other [OF s2]) simp
  also have "\<dots> = Inr (json_of_opt (latestCommit info))"
    by (rule setitem_getitem_same [OF s1])
  finally have c: "py_getitem l2 ''commitSha'' = Inr (json_of_opt (latestCommit info))" .
  have d: "py_getitem l2 ''commitDate'' = Inr (json_of_opt (latestCommitDate info))"
    by (rule setitem_getitem_same [OF s2])
  from r c d show ?thesis by simp
qed

lemma persist_after_fetch_done:
  assumes "fetched e = Inr c" and "fst (get_update_info e w) = Inr info"
  shows "\<exists>v. events (after_persist e info' w) = events (after_files e w) @ [WriteVersion v]
           \<and> version_file (after_persist e info' w) = Parsed v
           \<and> py_getitem v ''commitSha'' = Inr (json_of_opt (latestCommit info'))
           \<and> py_getitem v ''commitDate'' = Inr (json_of_opt (latestCommitDate info'))"
proof -
  from checked_version_is_object [OF assms] obtain kvs where
    "version_file (after_check e w) = Parsed (JObj kvs)"
    and k: "py_in ''commitSha'' (JObj kvs) = Inr True" by blast
  then have "version_file (after_files e w) = Parsed (JObj kvs)"
    by (simp add: after_files_frame)
  from persist_version_object_done [OF this k] show ?thesis
    unfolding after_persist_def .
qed

section \<open>Installing an update\<close>

lemmas install_defs =
  install_update_def install_after_check_def install_and_persist_def stop_for_install_def
  install_files_def install_scripts_def install_gui_def persist_version_def mkdir_gui_def
  after_check_def after_stop_def after_files_def after_persist_def mode_755_def
  no_space_def download_fails_def extract_fails_def copy_fails_def stored_commit_def

text \<open>
  Claim C1, amended. For every install run whose check succeeded and in which the
  download, the extraction or a file copy then fails with the text \<open>x\<close>, the run answers
  with the failure \<open>x\<close>, which is the text of the exception and names no stage, and no
  step after the check writes the version file: \<^verbatim>\<open>commitSha\<close>, and every field other than
  \<^verbatim>\<open>lastCheck\<close>, reads after the call as it read before. (The check that opens the install
  has by then rewritten \<^verbatim>\<open>lastCheck\<close>, and created the file if it was missing.)
\<close>

theorem failed_install_keeps_installed_commit:
  assumes "fst (get_update_info e w) = Inr info" and "error info = None"
      and "fst (install_files e (after_stop e w)) = Some x"
  shows "install_update e w = (Fail x, after_files e w)
       \<and> version_file (after_files e w) = version_file (after_check e w)
       \<and> emits (\<lambda>ev. \<not> is_write ev) (after_check e w) (after_files e w)
       \<and> stored_commit (after_files e w) = stored_commit w
       \<and> (\<forall>k. k \<noteq> ''lastCheck''
              \<longrightarrow> stored_field (after_files e w) k = stored_field w k)"
proof -
  have a: "install_update e w = (Fail x, after_files e w)"
    by (rule install_update_files_failed [OF assms(1) disjI1 [OF assms(2)] assms(3)])
  have b: "version_file (after_files e w) = version_file (after_check e w)"
    by (rule after_files_frame)
  have r: "stored_field (after_files e w) k = stored_field (after_check e w) k" for k
    by (rule stored_field_cong [OF b]) (simp add: after_files_frame after_check_frame)
  have d: "stored_field (after_files e w) k = stored_field w k" if "k \<noteq> ''lastCheck''" for k
    using that by (simp add: r after_check_def get_update_info_fields)
  have c: "stored_commit (after_files e w) = stored_commit w"
    by (simp add: stored_commit_def d)
  from a b c d no_write_between [of e w] show ?thesis by blast
qed

text \<open>Witness for C1: the copy of \<^verbatim>\<open>start.sh\<close> fails on a full disk; commit \<^verbatim>\<open>abc1234\<close>
  stays installed.\<close>

theorem failed_install_keeps_installed_commit_witness:
  "fst (get_update_info copy_fails sample_world) = Inr (sample_info ''abc1234'' True)
   \<and> error (sample_info ''abc1234'' True) = None
   \<and> fst (install_files copy_fails (after_stop copy_fails sample_world)) = Some no_space
   \<and> install_update copy_fails sample_world = (Fail no_space, after_files copy_fails sample_world)
   \<and> stored_commit (after_files copy_fails sample_world) = stored_commit sample_world
   \<and> stored_commit sample_world = Inr (JStr ''abc1234'')"
proof -
  have h1: "fst (get_update_info copy_fails sample_world) = Inr (sample_info ''abc1234'' True)"
    by (simp add: version_defs sample_defs copy_fails_def)
  have h2: "error (sample_info ''abc1234'' True) = None"
    by (simp add: sample_info_def)
  have h3: "fst (install_files copy_fails (after_stop copy_fails sample_world)) = Some no_space"
    by (simp add: install_defs version_defs supervisor_defs sample_defs)
  have h4: "stored_commit sample_world = Inr (JStr ''abc1234'')"
    by (simp add: stored_commit_def version_defs sample_defs)
  show ?thesis
    using h1 h2 h3 h4 failed_install_keeps_installed_commit [OF h1 h2 h3] by blast
qed

text \<open>
  Counterexample for C1 as stated: after a failed download the version file differs from
  the one before the call, since the check has stored the time in \<^verbatim>\<open>lastCheck\<close>; and the
  answer is the same whether the download, the extraction or the copy failed, so it
  does not report the stage.
\<close>

theorem failed_install_modifies_version_file_counterexample:
  "version_file sample_world = Parsed (sample_version ''abc1234'')
   \<and> version_file (snd (install_update download_fails sample_world))
       = Parsed (JObj [(''scripts'', JStr ''1.1.0''), (''commitSha'', JStr ''abc1234''),
                       (''commitDate'', JStr ''2024-12-24T08:00:00Z''),
                       (''lastCheck'', JStr ''2025-01-03T10:00:00'')])
   \<and> version_file (snd (install_update download_fails sample_world)) \<noteq> version_file sample_world
   \<and> fst (install_update download_fails sample_world) = Fail no_space
   \<and> fst (install_update extract_fails sample_world) = Fail no_space
   \<and> fst (install_update copy_fails sample_world) = Fail no_space"
  by (simp add: install_defs version_defs supervisor_defs sample_defs)

text \<open>
  Claim C7, amended. For every install run in which the server ran, was stopped at the
  start of the install, and the download, the extraction or a copy then fails with the
  text \<open>x\<close>: the installer does not start the old binary again (nothing is launched in
  the whole run) and the server is left stopped; the answer is the failure \<open>x\<close>, the text
  of the exception alone, with no statement about the server.
\<close>

theorem failed_install_leaves_server_stopped:
  assumes "fst (get_update_info e w) = Inr info" and "error info = None"
      and "get_server_process w \<noteq> None"
      and "get_server_process (after_stop e w) = None"
      and "fst (install_files e (after_stop e w)) = Some x"
  shows "install_update e w = (Fail x, after_files e w)
       \<and> get_server_process (after_files e w) = None
       \<and> emits (\<lambda>ev. \<not> is_launch ev) w (after_files e w)"
proof -
  have a: "install_update e w = (Fail x, after_files e w)"
    by (rule install_update_files_failed [OF assms(1) disjI1 [OF assms(2)] assms(5)])
  have "get_server_process (after_files e w) = get_server_process (after_stop e w)"
    by (rule get_server_process_cong) (rule after_files_frame)
  with assms(4) have b: "get_server_process (after_files e w) = None" by simp
  from a b no_launch_before_persist [of w e] show ?thesis by blast
qed

text \<open>Witness for C7: the server runs as 4242, is stopped, and the download fails.\<close>

theorem failed_install_leaves_server_stopped_witness:
  "fst (get_update_info download_fails sample_world) = Inr (sample_info ''abc1234'' True)
   \<and> error (sample_info ''abc1234'' True) = None
   \<and> get_server_process sample_world \<noteq> None
   \<and> get_server_process (after_stop download_fails sample_world) = None
   \<and> fst (install_files download_fails (after_stop download_fails sample_world)) = Some no_space
   \<and> install_update download_fails sample_world
       = (Fail no_space, after_files download_fails sample_world)
   \<and> get_server_process (after_files download_fails sample_world) = None
   \<and> emits (\<lambda>ev. \<not> is_launch ev) sample_world (after_files download_fails sample_world)"
proof -
  have h1: "fst (get_update_info download_fails sample_world) = Inr (sample_info ''abc1234'' True)"
    by (simp add: version_defs sample_defs download_fails_def)
  have h2: "error (sample_info ''abc1234'' True) = None"
    by (simp add: sample_info_def)
  have h3: "get_server_process sample_world \<noteq> None"
    by (simp add: get_server_process_def sample_world_def)
  have h4: "get_server_process (after_stop download_fails sample_world) = None"
    by (simp add: install_defs version_defs supervisor_defs sample_defs)
  have h5: "fst (install_files download_fails (after_stop download_fails sample_world))
            = Some no_space"
    by (simp add: install_files_def download_fails_def)
  show ?thesis
    using h1 h2 h3 h4 h5 failed_install_leaves_server_stopped [OF h1 h2 h3 h4 h5] by blast
qed

text \<open>
  Counterexample for C7 as stated: the failed install that stopped the running server
  and the failed install on a machine where no server ran give the same answer, so the
  answer does not say that the server was left stopped.
\<close>

theorem failed_install_answer_silent_on_server_counterexample:
  "get_server_process sample_world = Some 4242
   \<and> get_server_process (snd (install_update download_fails sample_world)) = None
   \<and> fst (install_update download_fails sample_world) = Fail no_space
   \<and> get_server_process idle_world = None
   \<and> fst (install_update download_fails idle_world) = Fail no_space"
  by (simp add: install_defs version_defs supervisor_defs sample_defs)

text \<open>
  Claim C2. For every install run in which every step succeeds (the commit is fetched,
  the check returns, download, extraction and copies raise nothing, and the start that
  follows when the server ran before answers with a pid), after \<^verbatim>\<open>install_update\<close>
  returns: the answer is the success with the fetched commit; the stored \<^verbatim>\<open>commitSha\<close> is
  the \<^verbatim>\<open>latestCommit\<close> of the check and \<^verbatim>\<open>commitDate\<close> its date; the server runs if and
  only if it ran before the install; and the log of the run is some events, none of them
  a launch and every write of the version file among them still carrying the old commit,
  then the write of the record that is in the version file at the end, then the launch
  if and only if the server ran before. All copies are among the first events: the new
  commit is persisted only after they have completed.
\<close>

theorem successful_install_advances_and_restores:
  assumes "fetched e = Inr c"
      and "fst (get_update_info e w) = Inr info"
      and "fst (install_files e (after_stop e w)) = None"
      and "get_server_process w \<noteq> None
             \<longrightarrow> fst (start_api_server e (after_persist e info w)) = Started p"
  shows "latestCommit info = Some (take 7 (sha c))
       \<and> fst (install_update e w)
           = Installed (Some (take 7 (sha c))) (first_line (commit_message c))
       \<and> stored_commit (snd (install_update e w)) = Inr (JStr (take 7 (sha c)))
       \<and> stored_field (snd (install_update e w)) ''commitDate''
           = Inr (JStr (author_date c))
       \<and> (get_server_process (snd (install_update e w)) \<noteq> None) = (get_server_process w \<noteq> None)
       \<and> (\<exists>pre v. events (snd (install_update e w))
                    = events w @ pre @ [WriteVersion v]
                      @ (if get_server_process w \<noteq> None then [Launch p, Sleep 500] else [])
                \<and> list_all (\<lambda>ev. \<not> is_launch ev \<and> writes_commit (stored_commit w) ev) pre
                \<and> version_file (snd (install_update e w)) = Parsed v)"
proof -
  note info = get_update_info_fetched_no_error [OF assms(1,2)]
  have persisted: "fst (persist_version info (after_files e w)) = None"
    by (rule persist_after_fetch [OF assms(1,2)])
  let ?wp = "after_persist e info w"
  define wfin where
    "wfin = (if get_server_process w \<noteq> None then snd (start_api_server e ?wp) else ?wp)"
  have run: "install_update e w =
               (Installed (latestCommit info) (latestCommitMessage info), wfin)"
    unfolding wfin_def
    by (rule install_update_installed [OF assms(2) disjI1 [OF info(1)] assms(3) persisted])
  from persist_after_fetch_done [OF assms(1,2), of info] obtain v where
    ev_p: "events ?wp = events (after_files e w) @ [WriteVersion v]"
    and vf_p: "version_file ?wp = Parsed v"
    and sha_v: "py_getitem v ''commitSha'' = Inr (json_of_opt (latestCommit info))"
    and date_v: "py_getitem v ''commitDate'' = Inr (json_of_opt (latestCommitDate info))"
    by blast
  from old_commit_before_persist [of w e] obtain pre1 where
    ev_f: "events (after_files e w) = events w @ pre1"
    and pre1: "list_all (\<lambda>ev. \<not> is_launch ev \<and> writes_commit (stored_commit w) ev) pre1"
    by (auto simp: emits_iff)
  have vf: "version_file wfin = Parsed v"
    by (simp add: wfin_def vf_p start_api_server_frame)
  have in_v: "py_in ''commitSha'' v = Inr True"
    by (rule getitem_in [OF sha_v])
  have read: "stored_field wfin ''commitDate'' = py_getitem v ''commitDate''"
    by (rule stored_field_parsed [OF vf in_v])
  have commit: "stored_commit wfin = Inr (JStr (take 7 (sha c)))"
    using stored_commit_parsed [OF vf sha_v] by (simp add: info)
  have date: "stored_field wfin ''commitDate'' = Inr (JStr (author_date c))"
    by (simp add: read date_v info)
  have evs: "events wfin = events w @ pre1 @ [WriteVersion v]
               @ (if get_server_process w \<noteq> None then [Launch p, Sleep 500] else [])"
  proof (cases "get_server_process w \<noteq> None")
    case True
    with assms(4) have "fst (start_api_server e ?wp) = Started p" by simp
    from start_api_server_started(3) [OF this] True show ?thesis
      by (simp add: wfin_def ev_p ev_f)
  next
    case False
    then show ?thesis by (simp add: wfin_def ev_p ev_f)
  qed
  have running: "(get_server_process wfin \<noteq> None) = (get_server_process w \<noteq> None)"
  proof (cases "get_server_process w \<noteq> None")
    case True
    with assms(4) have "fst (start_api_server e ?wp) = Started p" by simp
    from start_api_server_started(2) [OF this] True show ?thesis
      by (simp add: wfin_def get_server_process_def)
  next
    case False
    then have idle: "get_server_process w = None" by simp
    have "procs ?wp = procs (after_stop e w)" by (rule after_persist_frame)
    also have "\<dots> = procs w" by (simp add: after_stop_idle [OF idle] after_check_frame)
    finally have "get_server_process ?wp = get_server_process w"
      by (rule get_server_process_cong)
    with idle show ?thesis by (simp add: wfin_def)
  qed
  have log: "\<exists>pre v. events wfin
                    = events w @ pre @ [WriteVersion v]
                      @ (if get_server_process w \<noteq> None then [Launch p, Sleep 500] else [])
                \<and> list_all (\<lambda>ev. \<not> is_launch ev \<and> writes_commit (stored_commit w) ev) pre
                \<and> version_file wfin = Parsed v"
    using evs pre1 vf by (intro exI [of _ pre1] exI [of _ v]) simp
  have w': "snd (install_update e w) = wfin" by (simp add: run)
  have res: "fst (install_update e w)
           = Installed (Some (take 7 (sha c))) (first_line (commit_message c))"
    by (simp add: run info)
  show ?thesis
    unfolding w' using info(2) res [unfolded w'] commit date running log res by blast
qed

text \<open>Witness for C2: the install on the sample machine, where the server runs, and on
  the machine where it does not.\<close>

theorem successful_install_advances_and_restores_witness:
  "fetched quiet_env = Inr sample_commit
   \<and> fst (get_update_info quiet_env sample_world) = Inr (sample_info ''abc1234'' True)
   \<and> fst (install_files quiet_env (after_stop quiet_env sample_world)) = None
   \<and> fst (start_api_server quiet_env
            (after_persist quiet_env (sample_info ''abc1234'' True) sample_world)) = Started 5151
   \<and> get_server_process sample_world \<noteq> None
   \<and> stored_commit (snd (install_update quiet_env sample_world))
       = Inr (JStr (take 7 (sha sample_commit)))
   \<and> (get_server_process (snd (install_update quiet_env sample_world)) \<noteq> None)
       = (get_server_process sample_world \<noteq> None)
   \<and> fst (get_update_info quiet_env idle_world) = Inr (sample_info ''abc1234'' True)
   \<and> fst (install_files quiet_env (after_stop quiet_env idle_world)) = None
   \<and> get_server_process idle_world = None
   \<and> stored_commit (snd (install_update quiet_env idle_world))
       = Inr (JStr (take 7 (sha sample_commit)))
   \<and> (get_server_process (snd (install_update quiet_env idle_world)) \<noteq> None)
       = (get_server_process idle_world \<noteq> None)"
proof -
  have h1: "fetched quiet_env = Inr sample_commit"
    by (simp add: quiet_env_def)
  have h2: "fst (get_update_info quiet_env sample_world) = Inr (sample_info ''abc1234'' True)"
    by (simp add: version_defs sample_defs)
  have h3: "fst (install_files quiet_env (after_stop quiet_env sample_world)) = None"
    by (simp add: install_defs version_defs supervisor_defs sample_defs)
  have h4: "fst (start_api_server quiet_env
              (after_persist quiet_env (sample_info ''abc1234'' True) sample_world))
            = Started 5151"
    by (simp add: install_defs version_defs supervisor_defs sample_defs)
  have h5: "get_server_process sample_world \<noteq> None"
    by (simp add: get_server_process_def sample_world_def)
  have i2: "fst (get_update_info quiet_env idle_world) = Inr (sample_info ''abc1234'' True)"
    by (simp add: version_defs sample_defs)
  have i3: "fst (install_files quiet_env (after_stop quiet_env idle_world)) = None"
    by (simp add: install_defs version_defs supervisor_defs sample_defs)
  have i5: "get_server_process idle_world = None"
    by (simp add: get_server_process_def sample_defs)
  have i4: "get_server_process idle_world \<noteq> None
              \<longrightarrow> fst (start_api_server quiet_env
                        (after_persist quiet_env (sample_info ''abc1234'' True) idle_world))
                  = Started 0"
    by (simp add: i5)
  show ?thesis
    using h1 h2 h3 h4 h5 i2 i3 i5
      successful_install_advances_and_restores [OF h1 h2 h3 impI [OF h4]]
      successful_install_advances_and_restores [OF h1 i2 i3 i4]
    by blast
qed

lemma not_gui_events:
  "is_write ev \<Longrightarrow> \<not> is_gui_event ev"
  "is_stop_event ev \<Longrightarrow> \<not> is_gui_event ev"
  "is_start_event ev \<Longrightarrow> \<not> is_gui_event ev"
  by (cases ev; simp)+

text \<open>
  Claim C6. For every install run whose extracted folder has a \<^verbatim>\<open>scripts\<close> directory
  (a listing with distinct names) and no \<^verbatim>\<open>gui\<close> entry, the GUI directory is the same
  after the run as before, not created and with no file changed, and no GUI event is
  logged, whether the run succeeds or not; and when the run succeeds, every regular file
  directly in \<^verbatim>\<open>scripts\<close> is in the binary directory under its own name, with its content
  and the mode \<^verbatim>\<open>0o755\<close>, while every other name of the binary directory is as before
  (sub-directories of \<^verbatim>\<open>scripts\<close> are skipped).
\<close>

theorem scripts_only_archive_leaves_gui_untouched:
  assumes "extracted e = Inr entries"
      and "filter (\<lambda>d. is_dir (snd d)) entries = (n, folder) # rest"
      and "map_of (children folder) ''scripts'' = Some (Dir items)"
      and "map_of (children folder) ''gui'' = None"
      and "distinct (map fst items)"
  shows "gui_dir (snd (install_update e w)) = gui_dir w
       \<and> emits (\<lambda>ev. \<not> is_gui_event ev) w (snd (install_update e w))
       \<and> (fst (install_update e w) = Installed c m \<longrightarrow>
            (\<forall>name content mode. (name, File content mode) \<in> set items
               \<longrightarrow> bin_dir (snd (install_update e w)) name = Some (content, mode_755))
            \<and> (\<forall>name. name \<notin> fst ` set (files_of items)
               \<longrightarrow> bin_dir (snd (install_update e w)) name = bin_dir w name))"
proof -
  note ng = install_files_without_gui [OF assms(1,2,4)]
  \<comment> \<open>the GUI directory and the log at each step\<close>
  have g1: "gui_dir (after_check e w) = gui_dir w" by (rule after_check_frame)
  have g2: "gui_dir (after_files e w) = gui_dir w"
    by (simp add: after_files_def ng(1) after_stop_frame)
  have g3: "gui_dir (after_persist e info w) = gui_dir w" for info
    by (simp add: after_persist_frame g2)
  have g4: "gui_dir (snd (start_api_server e (after_persist e info w))) = gui_dir w" for info
    by (simp add: start_api_server_frame g3)
  have l1: "emits (\<lambda>ev. \<not> is_gui_event ev) w (after_check e w)"
    by (rule emits_mono [OF stage_emits(1)]) (rule not_gui_events)
  have l2: "emits (\<lambda>ev. \<not> is_gui_event ev) w (after_stop e w)"
    by (rule emits_trans [OF l1]) (rule emits_mono [OF stage_emits(2)], rule not_gui_events)
  have l3: "emits (\<lambda>ev. \<not> is_gui_event ev) w (after_files e w)"
    unfolding after_files_def by (rule emits_trans [OF l2]) (rule ng(2))
  have l4: "emits (\<lambda>ev. \<not> is_gui_event ev) w (after_persist e info w)" for info
    by (rule emits_trans [OF l3]) (rule emits_mono [OF stage_emits(4)], rule not_gui_events)
  have l5: "emits (\<lambda>ev. \<not> is_gui_event ev) w (snd (start_api_server e (after_persist e info w)))"
    for info
    by (rule emits_trans [OF l4])
       (rule emits_mono [OF start_api_server_emits], rule not_gui_events)
  have gui: "gui_dir (snd (install_update e w)) = gui_dir w
             \<and> emits (\<lambda>ev. \<not> is_gui_event ev) w (snd (install_update e w))"
    using install_update_cases [of e w] g1 g2 g3 g4 l1 l3 l4 l5 by auto
  \<comment> \<open>the binary directory after a successful run\<close>
  have copied: "(\<forall>name content mode. (name, File content mode) \<in> set items
               \<longrightarrow> bin_dir (snd (install_update e w)) name = Some (content, mode_755))
            \<and> (\<forall>name. name \<notin> fst ` set (files_of items)
               \<longrightarrow> bin_dir (snd (install_update e w)) name = bin_dir w name)"
    if ok: "fst (install_update e w) = Installed c m"
  proof -
    from install_update_cases [of e w] ok obtain info where
      files: "fst (install_files e (after_stop e w)) = None"
      and fin: "snd (install_update e w) =
                 (if get_server_process w \<noteq> None
                  then snd (start_api_server e (after_persist e info w))
                  else after_persist e info w)"
      by auto
    have b: "bin_dir (snd (install_update e w)) = bin_dir (after_files e w)"
      by (simp add: fin start_api_server_frame after_persist_frame)
    have dl: "download_raises e = None"
    proof (cases "download_raises e")
      case (Some x)
      with files show ?thesis by (simp add: install_files_download_raises)
    qed simp
    let ?w2 = "log_event [Extract] (log_event [Download] (after_stop e w))"
    have run: "install_files e (after_stop e w) = copy_scripts e items ?w2"
      by (simp add: ng(3) [OF dl] install_scripts_def assms(3))
    have complete: "fst (copy_scripts e items ?w2) = None"
      using files by (simp add: run)
    have af: "after_files e w = snd (copy_scripts e items ?w2)"
      by (simp add: after_files_def run)
    have yes: "bin_dir (snd (install_update e w)) name = Some (content, mode_755)"
      if "(name, File content mode) \<in> set items" for name content mode
    proof -
      from that have "(name, content, mode) \<in> set (files_of items)"
        by (simp add: files_of_mem)
      from copy_scripts_copied [OF complete files_of_distinct [OF assms(5)] this]
      show ?thesis by (simp add: b af)
    qed
    have no: "bin_dir (snd (install_update e w)) name = bin_dir w name"
      if "name \<notin> fst ` set (files_of items)" for name
      using copy_scripts_other [OF that, of e ?w2] by (simp add: b af after_stop_frame)
    from yes no show ?thesis by blast
  qed
  from gui copied show ?thesis by blast
qed

text \<open>Witness for C6: the sample archive, which has \<^verbatim>\<open>scripts/start.sh\<close> and no \<^verbatim>\<open>gui\<close>.\<close>

theorem scripts_only_archive_leaves_gui_untouched_witness:
  "extracted quiet_env = Inr sample_archive
   \<and> fst (install_update quiet_env sample_world) = Installed (Some ''9f3c2ab'') ''Fix start script''
   \<and> gui_dir (snd (install_update quiet_env sample_world)) = gui_dir sample_world
   \<and> bin_dir (snd (install_update quiet_env sample_world)) ''start.sh''
       = Some (''#!/bin/sh'', mode_755)"
proof -
  let ?items = "[(''lib'', Dir []), (''start.sh'', File ''#!/bin/sh'' 420)]"
  let ?folder = "Dir [(''README.md'', File ''readme'' 420), (''scripts'', Dir ?items)]"
  have h1: "extracted quiet_env = Inr sample_archive"
    by (simp add: quiet_env_def)
  have h2: "filter (\<lambda>d. is_dir (snd d)) sample_archive = (''cliproxyapi-plus-main'', ?folder) # []"
    by (simp add: sample_archive_def)
  have h3: "map_of (children ?folder) ''scripts'' = Some (Dir ?items)"
    by simp
  have h4: "map_of (children ?folder) ''gui'' = None"
    by simp
  have h5: "distinct (map fst ?items)"
    by simp
  have h6: "fst (install_update quiet_env sample_world)
            = Installed (Some ''9f3c2ab'') ''Fix start script''"
    by (simp add: install_defs version_defs supervisor_defs sample_defs)
  have h7: "(''start.sh'', File ''#!/bin/sh'' 420) \<in> set ?items"
    by simp
  show ?thesis
    using h1 h6 h7
      scripts_only_archive_leaves_gui_untouched
        [OF h1 h2 h3 h4 h5, of sample_world "Some ''9f3c2ab''" "''Fix start script''"]
    by blast
qed

section \<open>The control surface\<close>

lemma get_server_status_log_event [simp]:
  "get_server_status e (log_event es w) = get_server_status e w"
  by (simp add: get_server_status_def get_server_process_def)

lemma get_config_content_log_event [simp]:
  "get_config_content e (log_event es w) = get_config_content e w"
  by (simp add: get_config_content_def CONFIG_FILE_def)

lemma log_event_twice [simp]: "log_event es' (log_event es w) = log_event (es @ es') w"
  by (simp add: log_event_def)

text \<open>The loop serves a queue piece by piece: what follows is handled on the machine that
  the earlier requests left.\<close>

lemma serve_forever_append:
  "serve_forever (queue @ queue') w =
     (fst (serve_forever queue w) @ fst (serve_forever queue' (snd (serve_forever queue w))),
      snd (serve_forever queue' (snd (serve_forever queue w))))"
proof (induction queue arbitrary: w)
  case Nil
  show ?case by simp
next
  case (Cons a queue)
  obtain e r where a: "a = (e, r)" by (cases a)
  obtain answer w1 where h: "handle e r w = (answer, w1)" by (cases "handle e r w")
  show ?case
    by (simp add: a h Cons.IH [of w1] split: prod.splits)
qed

lemma handle_install:
  "handle e POST_update w =
     (Inr (ResultBody (fst (install_update e w))),
      log_event [Answered POST_update] (snd (install_update e w)))"
  by (simp add: send_json_def split: prod.splits)

text \<open>
  Claim C9, amended. The control surface serves its requests one at a time, in the order
  of their arrival, on the single serving thread: for every queue of earlier requests and
  every machine, a status request, or a read of the configuration, that arrives while an
  install is in progress is answered only after the install has returned and its own
  answer has been sent, and the answer is taken from the machine as the install left it.
  An install in one request handler does block the endpoints queued behind it.
\<close>

theorem requests_wait_for_running_install:
  "serve_forever (before @ [(e1, POST_update), (e2, GET_status)]) w =
     (fst (serve_forever before w)
        @ [Inr (ResultBody (fst (install_update e1 (snd (serve_forever before w))))),
           Inr (StatusBody
                  (get_server_status e2 (snd (install_update e1 (snd (serve_forever before w))))))],
      log_event [Answered POST_update, Answered GET_status]
        (snd (install_update e1 (snd (serve_forever before w)))))
   \<and> serve_forever (before @ [(e1, POST_update), (e2, GET_config)]) w =
     (fst (serve_forever before w)
        @ [Inr (ResultBody (fst (install_update e1 (snd (serve_forever before w))))),
           Inr (ConfigBody
                  (get_config_content e2 (snd (install_update e1 (snd (serve_forever before w))))))],
      log_event [Answered POST_update, Answered GET_config]
        (snd (install_update e1 (snd (serve_forever before w)))))"
  by (simp add: serve_forever_append handle_install send_json_def del: handle.simps(7))

text \<open>
  Counterexample for C9 as stated: an install and, behind it, a status request on the
  machine where the server runs as 4242. The status answer reports pid 5151, the process
  that the install launched as its last step, and it is the last event of the log, after
  every step of the install and after the answer of the install: the status was not
  answered while the install was in progress. The same holds for a read of the
  configuration.
\<close>

theorem status_answered_after_install_counterexample:
  "s_pid (get_server_status quiet_env sample_world) = Some 4242
   \<and> fst (serve_forever [(quiet_env, POST_update), (quiet_env, GET_status)] sample_world)
       = [Inr (ResultBody (Installed (Some ''9f3c2ab'') ''Fix start script'')),
          Inr (StatusBody
                 \<lparr>running = True, s_pid = Some 5151, memory = None, startTime = None,
                  port = 8317, endpoint = ''http://localhost:8317/v1''\<rparr>)]
   \<and> events (snd (serve_forever [(quiet_env, POST_update), (quiet_env, GET_status)] sample_world))
       = [WriteVersion
            (JObj [(''scripts'', JStr ''1.1.0''), (''commitSha'', JStr ''abc1234''),
                   (''commitDate'', JStr ''2024-12-24T08:00:00Z''),
                   (''lastCheck'', JStr ''2025-01-03T10:00:00'')]),
          Kill 4242, Sleep 300, Sleep 1000, Download, Extract, CopyScript ''start.sh'',
          WriteVersion
            (JObj [(''scripts'', JStr ''1.1.0''), (''commitSha'', JStr ''9f3c2ab''),
                   (''commitDate'', JStr ''2025-01-02T03:04:05Z''),
                   (''lastCheck'', JStr ''2025-01-03T10:00:00'')]),
          Launch 5151, Sleep 500, Answered POST_update, Answered GET_status]
   \<and> fst (serve_forever [(quiet_env, POST_update), (quiet_env, GET_config)] sample_world)
       = [Inr (ResultBody (Installed (Some ''9f3c2ab'') ''Fix start script'')),
          Inr (ConfigBody (ConfigContent ''port: 8317''))]
   \<and> drop 10 (events (snd (serve_forever [(quiet_env, POST_update), (quiet_env, GET_config)]
                              sample_world)))
       = [Answered POST_update, Answered GET_config]"
  by (simp add: send_json_def get_config_content_def install_defs version_defs supervisor_defs
                sample_defs show_nat.simps digit_char_def)

end
